theory Spec2Isabelle
  imports Complex_Main "HOL-Library.Sublist"
begin

section \<open>Strings and exceptions\<close>

text \<open>
  A Python \<open>str\<close> is a sequence of Unicode code points and \<open>len\<close> counts code points.
  The review texts and the keyword lexicons are Korean, so a text is modelled as the
  list of its code points; \<open>k in text\<close> is the contiguous-sublist test \<open>sublist k text\<close>.
  Identifiers that are plain ASCII in the source (\<open>'safe'\<close>, \<open>'status-green'\<close>, statuses)
  stay of type \<open>string\<close>.
\<close>

type_synonym ustring = "nat list"

text \<open>Exceptions are values; a function that may raise returns \<open>exn + 'a\<close>.\<close>

datatype exn =
    KeyError
  | IndexError
  | ValueError
  | AttributeError
  | NameError
  | BackendError string

section \<open>Floating-point arithmetic\<close>

text \<open>
  The scores are floats (numpy \<open>float64\<close>). A float is modelled by the real number it
  denotes, so comparisons of floats are the comparisons of reals, and so are comparisons
  of a float with an integer. The integers that the code converts to floats (lengths up
  to 100, the number of reviews of a batch, the constants 50 and 100) are floats
  themselves. Every addition, multiplication and division of floats, and every decimal
  literal, yields the exact result rounded to the float format: \<open>fl\<close> applied to the exact
  value. The rounding \<open>fl\<close> and the function \<open>round(x, ndigits)\<close> are parameters of the
  model, so that what is proved for every arithmetic holds for the one of the machine.
\<close>

record arith =
  fl :: "real \<Rightarrow> real"
  round_nd :: "real \<Rightarrow> nat \<Rightarrow> real"

definition fadd :: "arith \<Rightarrow> real \<Rightarrow> real \<Rightarrow> real" where
  "fadd ar a b = fl ar (a + b)"

definition fmul :: "arith \<Rightarrow> real \<Rightarrow> real \<Rightarrow> real" where
  "fmul ar a b = fl ar (a * b)"

definition fdiv :: "arith \<Rightarrow> real \<Rightarrow> real \<Rightarrow> real" where
  "fdiv ar a b = fl ar (a / b)"

text \<open>A decimal literal of the source, such as \<open>0.85\<close>.\<close>

definition lit :: "arith \<Rightarrow> real \<Rightarrow> real" where
  "lit ar c = fl ar c"

text \<open>Rounding to the nearest integer, ties to the even one.\<close>

definition round_half_even :: "real \<Rightarrow> int" where
  "round_half_even y =
     (let f = \<lfloor>y\<rfloor>; d = y - of_int f
      in if d < 1 / 2 then f
         else if d > 1 / 2 then f + 1
         else if even f then f else f + 1)"

text \<open>
  Exact arithmetic: nothing is rounded, and \<open>round(x, ndigits)\<close> is the nearest multiple
  of \<open>10 ^ -ndigits\<close>, ties to the even last digit.
\<close>

definition py_round :: "real \<Rightarrow> nat \<Rightarrow> real" where
  "py_round x ndigits = of_int (round_half_even (x * 10 ^ ndigits)) / 10 ^ ndigits"

definition exact_arith :: arith where
  "exact_arith = \<lparr>fl = (\<lambda>x. x), round_nd = py_round\<rparr>"

text \<open>
  Double precision (IEEE 754 binary64): 53 significant bits, round to nearest, ties to
  even. \<open>scale_exp\<close> finds the exponent \<open>e\<close> with \<open>2 ^ 52 \<le> x / 2 ^ e < 2 ^ 53\<close>; its first
  argument bounds the number of steps, more than the exponent range of the format
  needs. Overflow and subnormal numbers are not represented: the values of this program
  are far from both.
\<close>

fun scale_exp :: "nat \<Rightarrow> real \<Rightarrow> int \<Rightarrow> int" where
  "scale_exp 0 x e = e"
| "scale_exp (Suc n) x e =
     (if x < 2 ^ 52 then scale_exp n (2 * x) (e - 1)
      else if 2 ^ 53 \<le> x then scale_exp n (x / 2) (e + 1)
      else e)"

definition binary64 :: "real \<Rightarrow> real" where
  "binary64 x =
     (if x = 0 then 0
      else (let e = scale_exp 2200 \<bar>x\<bar> 0;
                m = round_half_even (\<bar>x\<bar> * 2 powi (- e))
            in sgn x * of_int m * 2 powi e))"

text \<open>
  \<open>round\<close> on a numpy \<open>float64\<close> is numpy's: multiply by \<open>10 ^ ndigits\<close>, round to the nearest
  integer (ties to even), divide by \<open>10 ^ ndigits\<close>, each step in double precision. The
  scores are numpy floats except the \<open>0.0\<close> of an empty text, a Python float; a sum with a
  numpy float is a numpy float, and \<open>round\<close> of Python and of numpy agree on 0.
\<close>

definition numpy_round :: "real \<Rightarrow> nat \<Rightarrow> real" where
  "numpy_round x ndigits =
     binary64 (of_int (round_half_even (binary64 (x * 10 ^ ndigits))) / 10 ^ ndigits)"

definition ieee_arith :: arith where
  "ieee_arith = \<lparr>fl = binary64, round_nd = numpy_round\<rparr>"

text \<open>
  What the bounds on a score need of an arithmetic; double precision has all of it, and
  so has exact arithmetic. Rounding is monotone and leaves floats unchanged; 0, 1 and
  100 are floats; \<open>100 * 0.85\<close> and \<open>100 * 0.15\<close>, as computed, add up to at most 100; and
  \<open>round(x, 1)\<close> of a float between 0 and 100 is the float of a number of tenths between
  0 and 100.
\<close>

definition sound_arith :: "arith \<Rightarrow> bool" where
  "sound_arith ar \<longleftrightarrow>
     (\<forall>x y. x \<le> y \<longrightarrow> fl ar x \<le> fl ar y)
     \<and> (\<forall>x. fl ar (fl ar x) = fl ar x)
     \<and> fl ar 0 = 0 \<and> fl ar 1 = 1 \<and> fl ar 100 = 100
     \<and> fl ar (100 * fl ar (85 / 100)) + fl ar (100 * fl ar (15 / 100)) \<le> 100
     \<and> (\<forall>x. 0 \<le> x \<and> x \<le> 100 \<longrightarrow>
           (\<exists>k::int. 0 \<le> k \<and> k \<le> 1000 \<and> round_nd ar x 1 = fl ar (of_int k / 10)))"

section \<open>SmartReviewScorer (services/review_scorer.py)\<close>

text \<open>The two lexicons of \<open>__init__\<close>, as code points, in the order of the source.\<close>

definition PRODUCT_KEYWORDS :: "ustring list" where
  "PRODUCT_KEYWORDS =
    [[46160, 44760], [46160, 44749], [50567], [49884, 48372, 47532], [51648, 54140],
     [47560, 44048], [48149, 51020, 51656], [49892, 48165], [49552, 49345], [48372, 46308],
     [48512, 46300, 47101], [44144, 52832], [44620, 45132], [53444, 53444], [51697, 51697],
     [53252, 47532], [51116, 51656], [49548, 51116], [50896, 45800], [53560],
     [48372, 54400], [48708, 52840], [50504, 44048], [51452, 47672, 45768], [45800, 52628],
     [48260, 53948], [49888, 52629, 49457], [49828, 54032], [44396, 44608],
     [47932, 48736, 51664], [49464, 53441], [44148, 51312], [45252, 49352], [54693],
     [50724, 50684], [54607], [44592, 51109], [49548, 47588], [54728, 47532],
     [50612, 44648], [44032, 49844], [54408], [53685], [50724, 48260], [47336, 51592],
     [49836, 47548], [53440, 51060, 53944], [45321, 45321], [51089, 50500], [52964, 50836],
     [44600, 50612], [51687, 50500], [45331, 50612], [51329, 50500], [46385, 32, 47582],
     [54736, 47105], [51900, 51060], [51089, 45348], [53356, 45348], [44600, 45348],
     [51687, 45348], [47582, 45348], [49324, 51060, 51592], [53356, 44592], [99, 109],
     [107, 103], [53412], [47800, 47924, 44172], [54217, 49548], [53356, 45348, 50836],
     [52964, 49436], [51089, 45348, 50836], [48520, 54200], [54200, 50504], [50500, 54532],
     [46384, 46907], [49884, 50896], [50668, 47492], [44200, 50872], [44032, 51012],
     [48388], [44228, 51208], [51077, 50612, 48372], [49888, 50612, 48372], [50024, 48372],
     [49324, 50857, 54644], [52265, 50857], [46384, 46907], [48156, 48380], [48156, 46321],
     [44413], [47924, 44172], [44032, 48333], [47924, 44161], [49548, 51020],
     [49548, 47532], [51312, 47549], [49444, 52824], [49888, 48156, 45128], [49353, 44048],
     [49353, 49345], [49892, 47932], [53252, 47532, 54000], [49892, 51228]]"

definition DELIVERY_KEYWORDS :: "ustring list" where
  "DELIVERY_KEYWORDS =
    [[48176, 49569], [53469, 48176], [44592, 49324], [48149, 49828], [54252, 51109],
     [51452, 47928], [46020, 52265], [48176, 49569, 48708], [52860, 48176, 49569]]"

text \<open>
  The tokenizer with the KcELECTRA encoder, and the random forest, are external: \<open>embed\<close>
  is \<open>tokenizer\<close> followed by \<open>bert_model\<close> (the 768 numbers of the first token), and
  \<open>predict_proba\<close> is \<open>rf_model.predict_proba(features)[0]\<close>, the list of class
  probabilities. Either may raise.
\<close>

record scorer =
  embed :: "ustring \<Rightarrow> exn + real list"
  predict_proba :: "real list \<Rightarrow> exn + real list"

text \<open>\<open>any(k in text for k in keywords)\<close>\<close>

definition contains_any :: "ustring list \<Rightarrow> ustring \<Rightarrow> bool" where
  "contains_any keywords text = list_ex (\<lambda>k. sublist k text) keywords"

definition extract_features ::
  "arith \<Rightarrow> scorer \<Rightarrow> ustring \<Rightarrow> exn + (real list \<times> real \<times> nat \<times> nat)" where
  "extract_features ar sc text =
     (case embed sc text of
        Inl e \<Rightarrow> Inl e
      | Inr emb \<Rightarrow>
          (let length_val = fdiv ar (real (min (length text) 100)) 100;
               has_product = (if contains_any PRODUCT_KEYWORDS text then 1 else 0);
               has_delivery = (if contains_any DELIVERY_KEYWORDS text then 1 else 0)
           in Inr (emb @ [length_val, real has_product, real has_delivery],
                   length_val, has_product, has_delivery)))"

definition predict :: "arith \<Rightarrow> scorer \<Rightarrow> ustring \<Rightarrow> exn + real" where
  "predict ar sc text =
     (if text = [] then Inr 0
      else case extract_features ar sc text of
        Inl e \<Rightarrow> Inl e
      | Inr (features, length_val, has_product, has_delivery) \<Rightarrow>
          (case predict_proba sc features of
             Inl e \<Rightarrow> Inl e
           | Inr probs \<Rightarrow>
               if length probs < 2 then Inl IndexError
               else
                 (let raw_score = fmul ar (probs ! 1) 100;
                      final_score = raw_score;
                      final_score =
                        (if has_product = 0 then fmul ar raw_score (lit ar 0.25)
                         else if has_delivery = 1 \<and> length_val < lit ar 0.2
                           then fmul ar final_score (lit ar 0.1)
                         else
                           (let length_bonus = fdiv ar (real (min (length text) 50)) 50
                            in fadd ar (fmul ar final_score (lit ar 0.85))
                                 (fmul ar (fmul ar final_score (lit ar 0.15)) length_bonus)))
                  in Inr (round_nd ar final_score 1))))"

text \<open>
  The scoring rule in the words of the specification (section 4.2, step 3), to compare
  with \<open>predict\<close>: \<open>has_p\<close> and \<open>has_d\<close> are the two keyword flags, \<open>n\<close> the character
  length. The operations are those of the arithmetic; \<open>raw * 0.15 * length_bonus\<close> is
  evaluated from left to right.
\<close>

definition spec_final_score :: "arith \<Rightarrow> bool \<Rightarrow> bool \<Rightarrow> nat \<Rightarrow> real \<Rightarrow> real" where
  "spec_final_score ar has_p has_d n raw =
     (let length_signal = fdiv ar (real (min n 100)) 100;
          length_bonus = fdiv ar (real (min n 50)) 50
      in if \<not> has_p then fmul ar raw (lit ar 0.25)
         else if has_d \<and> length_signal < lit ar 0.2 then fmul ar raw (lit ar 0.1)
         else fadd ar (fmul ar raw (lit ar 0.85))
                (fmul ar (fmul ar raw (lit ar 0.15)) length_bonus))"

text \<open>
  A scorer for concrete evaluations: the embedding is empty and the classifier answers
  every input with the probabilities \<open>[1 - p, p]\<close>.
\<close>

definition constant_scorer :: "real \<Rightarrow> scorer" where
  "constant_scorer p = \<lparr>embed = (\<lambda>t. Inr []), predict_proba = (\<lambda>f. Inr [1 - p, p])\<rparr>"

text \<open>The same scorer, except that the embedding raises on the one text \<open>bad\<close>.\<close>

definition failing_scorer :: "ustring \<Rightarrow> real \<Rightarrow> scorer" where
  "failing_scorer bad p =
     \<lparr>embed = (\<lambda>t. if t = bad then Inl (BackendError ''embedding failed'') else Inr []),
      predict_proba = (\<lambda>f. Inr [1 - p, p])\<rparr>"

section \<open>ReviewAIAnalyzer (services/ai_analyzer.py)\<close>

text \<open>
  A review is a dictionary. The model keeps the keys the analyzer and the feedback
  endpoint read or write (\<open>None\<close> is an absent key) and drops the other, opaque ones.
  The keys \<open>'text'\<close> and \<open>'content'\<close> are the fields \<open>r_text\<close> and \<open>r_content\<close>.
\<close>

record review =
  r_text :: "ustring option"
  r_content :: "ustring option"
  reliability_score :: "real option"
  analysis_label :: "ustring option"
  color_class :: "string option"

text \<open>Code points for which \<open>str.isspace\<close> holds; \<open>str.strip()\<close> removes them at both ends.\<close>

definition py_isspace :: "nat \<Rightarrow> bool" where
  "py_isspace c =
     (c \<in> set [9, 10, 11, 12, 13, 28, 29, 30, 31, 32, 133, 160, 5760,
                8232, 8233, 8239, 8287, 12288]
      \<or> (8192 \<le> c \<and> c \<le> 8202))"

definition strip :: "ustring \<Rightarrow> ustring" where
  "strip s = rev (dropWhile py_isspace (rev (dropWhile py_isspace s)))"

text \<open>\<open>d.get(key, '')\<close> on an optional string field.\<close>

definition get_str :: "ustring option \<Rightarrow> ustring" where
  "get_str v = (case v of None \<Rightarrow> [] | Some t \<Rightarrow> t)"

text \<open>\<open>review.get('text', '') or review.get('content', '')\<close>, and the same with the two keys
  exchanged (the order the feedback endpoint uses).\<close>

definition text_or_content :: "review \<Rightarrow> ustring" where
  "text_or_content review =
     (if get_str (r_text review) \<noteq> [] then get_str (r_text review)
      else get_str (r_content review))"

definition content_or_text :: "review \<Rightarrow> ustring" where
  "content_or_text review =
     (if get_str (r_content review) \<noteq> [] then get_str (r_content review)
      else get_str (r_text review))"

fun preprocess_reviews :: "review list \<Rightarrow> review list" where
  "preprocess_reviews [] = []"
| "preprocess_reviews (review # reviews) =
     (let text = text_or_content review
      in if text = [] then preprocess_reviews reviews
         else review\<lparr>r_text := Some (strip text)\<rparr> # preprocess_reviews reviews)"

text \<open>
  The three display labels (\<open>maeu doumdoem\<close>: very helpful, \<open>bubunjeogeuro doumdoem\<close>:
  partially helpful, \<open>doum andoem\<close>: not helpful) and the three Korean verdict texts.
\<close>

definition LABEL_VERY_HELPFUL :: ustring where
  "LABEL_VERY_HELPFUL = [47588, 50864, 32, 46020, 50880, 46120]"

definition LABEL_PARTLY_HELPFUL :: ustring where
  "LABEL_PARTLY_HELPFUL = [48512, 48516, 51201, 51004, 47196, 32, 46020, 50880, 46120]"

definition LABEL_NOT_HELPFUL :: ustring where
  "LABEL_NOT_HELPFUL = [46020, 50880, 32, 50504, 46120]"

definition VERDICT_KR_SAFE :: ustring where
  "VERDICT_KR_SAFE = [49888, 47280, 54624, 32, 47564, 54632]"

definition VERDICT_KR_SUSPICIOUS :: ustring where
  "VERDICT_KR_SUSPICIOUS = [51032, 49900, 49828, 47084, 50880]"

definition VERDICT_KR_MALICIOUS :: ustring where
  "VERDICT_KR_MALICIOUS = [49888, 47280, 54616, 44592, 32, 50612, 47140, 50880]"

record details =
  avg_trust_score :: real
  d_avg_score :: real
  total_reviews :: nat
  model_mode :: string

record analysis_result =
  verdict :: string
  verdict_kr :: ustring
  confidence :: real
  enriched_reviews :: "review list"
  details :: details

text \<open>
  Step 1 of \<open>analyze_reviews\<close>: the loop that scores every review in order. There is no
  handler inside the loop, so the first exception leaves it. \<open>review['text']\<close> raises
  \<open>KeyError\<close> on a review without that key.
\<close>

fun score_reviews :: "arith \<Rightarrow> scorer \<Rightarrow> review list \<Rightarrow> exn + real list" where
  "score_reviews ar sc [] = Inr []"
| "score_reviews ar sc (review # reviews) =
     (case r_text review of
        None \<Rightarrow> Inl KeyError
      | Some text \<Rightarrow>
          (case predict ar sc text of
             Inl e \<Rightarrow> Inl e
           | Inr score \<Rightarrow>
               (case score_reviews ar sc reviews of
                  Inl e \<Rightarrow> Inl e
                | Inr final_scores \<Rightarrow> Inr (score # final_scores))))"

text \<open>Step 2: the label and the colour of one review, from its score.\<close>

definition enrich :: "review \<Rightarrow> real \<Rightarrow> review" where
  "enrich review score =
     (let (label, color) =
            (if score \<ge> 76 then (LABEL_VERY_HELPFUL, ''status-green'')
             else if score \<ge> 36 then (LABEL_PARTLY_HELPFUL, ''status-orange'')
             else (LABEL_NOT_HELPFUL, ''status-red''))
      in review\<lparr>reliability_score := Some score,
                 analysis_label := Some label,
                 color_class := Some color\<rparr>)"

text \<open>
  Step 3: the statistics and the verdict of the batch. \<open>sum(final_scores)\<close> adds the
  scores to 0 one after the other, from left to right.
\<close>

definition summarize ::
  "arith \<Rightarrow> review list \<Rightarrow> real list \<Rightarrow> review list \<Rightarrow> analysis_result" where
  "summarize ar reviews final_scores enriched =
     (let avg_score = (if final_scores \<noteq> []
                       then fdiv ar (foldl (fadd ar) 0 final_scores)
                              (real (length final_scores))
                       else 0);
          avg_trust = fdiv ar avg_score 100;
          (verdict, verdict_kr) =
            (if avg_trust > lit ar 0.7 then (''safe'', VERDICT_KR_SAFE)
             else if avg_trust \<ge> lit ar 0.3 then (''suspicious'', VERDICT_KR_SUSPICIOUS)
             else (''malicious'', VERDICT_KR_MALICIOUS));
          confidence = round_nd ar avg_score 2
      in \<lparr>verdict = verdict, verdict_kr = verdict_kr, confidence = confidence,
          enriched_reviews = enriched,
          details = \<lparr>avg_trust_score = round_nd ar avg_trust 4,
                      d_avg_score = round_nd ar avg_score 2,
                      total_reviews = length reviews,
                      model_mode = ''SmartReviewScorer (KcELECTRA + RandomForest)''\<rparr>\<rparr>)"

text \<open>
  \<open>analyze_reviews\<close>: the \<open>except\<close> clause around the three steps logs the exception and
  raises it again.
\<close>

definition analyze_reviews ::
  "arith \<Rightarrow> scorer \<Rightarrow> review list \<Rightarrow> exn + analysis_result" where
  "analyze_reviews ar sc reviews =
     (case score_reviews ar sc reviews of
        Inl e \<Rightarrow> Inl e
      | Inr final_scores \<Rightarrow>
          Inr (summarize ar reviews final_scores (map2 enrich reviews final_scores)))"

text \<open>
  The mean of the scores as the analyzer computes it, for the statement of the verdict:
  the sum from left to right, divided by the number of scores; 0 for no score.
\<close>

definition mean_score :: "arith \<Rightarrow> real list \<Rightarrow> real" where
  "mean_score ar scores =
     (if scores = [] then 0
      else fdiv ar (foldl (fadd ar) 0 scores) (real (length scores)))"

text \<open>
  \<open>run\<close> answers with an error dictionary when the model cannot be loaded or no review
  has text. The argument \<open>loaded\<close> is the scorer that \<open>load_model\<close> obtains, \<open>None\<close> when
  loading fails.
\<close>

datatype run_error = ModelLoadingFailed | NoReviewsToAnalyze

datatype run_result = Analyzed analysis_result | ErrorVerdict run_error

definition run :: "arith \<Rightarrow> scorer option \<Rightarrow> review list \<Rightarrow> exn + run_result" where
  "run ar loaded reviews =
     (case loaded of
        None \<Rightarrow> Inr (ErrorVerdict ModelLoadingFailed)
      | Some sc \<Rightarrow>
          (let processed_reviews = preprocess_reviews reviews
           in if processed_reviews = [] then Inr (ErrorVerdict NoReviewsToAnalyze)
              else map_sum id Analyzed (analyze_reviews ar sc processed_reviews)))"

text \<open>
  \<open>main\<close> prints \<open>{'success': True, 'result': ...}\<close>, or \<open>{'success': False, 'error': str(e)}\<close>
  when anything raised.
\<close>

datatype output_data = Success run_result | Failure exn

definition main :: "arith \<Rightarrow> scorer option \<Rightarrow> review list \<Rightarrow> output_data" where
  "main ar loaded reviews =
     (case run ar loaded reviews of Inl e \<Rightarrow> Failure e | Inr result \<Rightarrow> Success result)"

section \<open>The database\<close>

text \<open>
  The tables the modelled code reads and writes, each a list of rows. Timestamps, log
  trails, free-text descriptions and the auto-increment keys of \<open>feedbacks\<close> and
  \<open>ai_models\<close> are left out. The classes \<open>AIJob\<close> and \<open>AIModel\<close> and the columns
  \<open>top_reviews\<close> and \<open>worst_reviews\<close> of \<open>Analysis\<close> are declared outside the given sources;
  their fields are the ones the code below uses.
\<close>

datatype analysis_error_message = AnalysisError exn

record analysis =
  analysis_id :: nat
  status :: string
  a_verdict :: "string option"
  a_confidence :: "real option"
  error_message :: "analysis_error_message option"
  review_count :: "nat option"
  top_reviews :: "review list"
  worst_reviews :: "review list"

record feedback =
  fb_analysis_id :: nat
  review_text :: ustring
  fb_confidence :: real
  tags :: int
  original_score :: real
  labeling_strategy :: string
  label_confidence :: real

datatype job_error_message =
    TotalDataShortage nat
  | LabelTooFew nat nat
  | NoActiveModel
  | Raised exn

record ai_job =
  job_id :: nat
  job_type :: string
  job_status :: string
  submitted_at :: nat
  job_error_message :: "job_error_message option"

record ai_model =
  model_name :: string
  version :: string
  artifact_url :: string
  accuracy :: real
  active :: bool

record db =
  analyses :: "analysis list"
  feedbacks :: "feedback list"
  jobs :: "ai_job list"
  models :: "ai_model list"

text \<open>\<open>query.filter(p).first()\<close> is \<open>find p\<close>; an attribute assignment on the row that
  \<open>first()\<close> returned, followed by \<open>commit\<close>, updates that row in place.\<close>

fun update_first :: "('a \<Rightarrow> bool) \<Rightarrow> ('a \<Rightarrow> 'a) \<Rightarrow> 'a list \<Rightarrow> 'a list" where
  "update_first p f [] = []"
| "update_first p f (x # xs) = (if p x then f x # xs else x # update_first p f xs)"

section \<open>AnalysisService (services/analysis_service.py)\<close>

definition update_analysis_status ::
  "db \<Rightarrow> nat \<Rightarrow> string \<Rightarrow> string option \<Rightarrow> real option \<Rightarrow>
   analysis_error_message option \<Rightarrow> nat option \<Rightarrow> db" where
  "update_analysis_status d aid new_status vd conf err cnt =
     d\<lparr>analyses :=
         update_first (\<lambda>a. analysis_id a = aid)
           (\<lambda>a. a\<lparr>status := new_status,
                   a_verdict := (case vd of None \<Rightarrow> a_verdict a
                                 | Some v \<Rightarrow> if v \<noteq> [] then Some v else a_verdict a),
                   a_confidence := (case conf of None \<Rightarrow> a_confidence a | Some c \<Rightarrow> Some c),
                   error_message := (case err of None \<Rightarrow> error_message a | Some e \<Rightarrow> Some e),
                   review_count := (case cnt of None \<Rightarrow> review_count a | Some n \<Rightarrow> Some n)\<rparr>)
           (analyses d)\<rparr>"

text \<open>
  \<open>analyze_with_ai\<close> runs the analyzer script as a child process and reads the JSON it
  prints; the model calls \<open>main\<close> directly. The two-minute timeout of the child process
  is not represented. The result is the database after the status update and the
  \<open>success\<close> flag of the returned dictionary.
\<close>

definition analyze_with_ai ::
  "arith \<Rightarrow> scorer option \<Rightarrow> review list \<Rightarrow> nat \<Rightarrow> db \<Rightarrow> db \<times> bool" where
  "analyze_with_ai ar loaded reviews aid d =
     (case main ar loaded reviews of
        Failure e \<Rightarrow>
          (update_analysis_status d aid ''failed'' None None (Some (AnalysisError e)) None,
           False)
      | Success ai_result \<Rightarrow>
          (let (vd, conf) =
                 (case ai_result of
                    Analyzed r \<Rightarrow> (verdict r, confidence r)
                  | ErrorVerdict _ \<Rightarrow> (''error'', 0))
           in (update_analysis_status d aid ''completed'' (Some vd) (Some conf) None
                 (Some (length reviews)),
               True)))"

section \<open>Smart Labeling (routers/feedback.py)\<close>

text \<open>
  Scores and batch averages are Python floats; they are modelled as real numbers, so
  the comparisons below are the mathematical ones (no NaN, no rounding). The argument
  \<open>user_satisfaction\<close> is an \<open>int\<close> in the source and is compared with \<open>1\<close>; every other
  value takes the \<open>else\<close> branch. The result is \<open>Optional[int]\<close>: \<open>None\<close> excludes the
  review from the training data.
\<close>

definition smart_label_hybrid :: "real \<Rightarrow> real \<Rightarrow> int \<Rightarrow> int option" where
  "smart_label_hybrid score avg_score user_satisfaction =
     (if user_satisfaction = 1 then
        (if score \<ge> 85 then Some 1
         else if score \<le> 35 then Some 0
         else Some (if score > avg_score then 1 else 0))
      else
        (if score \<le> 35 then Some 0
         else if score \<ge> 85 then Some 1
         else Some (if score < avg_score then 0 else 1)))"

definition smart_label_extreme :: "real \<Rightarrow> int \<Rightarrow> int option" where
  "smart_label_extreme score user_satisfaction =
     (if user_satisfaction = 1 then
        (if score \<ge> 80 then Some 1
         else if score \<le> 40 then Some 0
         else None)
      else
        (if score \<le> 40 then Some 0
         else if score \<ge> 80 then Some 1
         else None))"

definition smart_label_relative :: "real \<Rightarrow> real \<Rightarrow> int \<Rightarrow> int" where
  "smart_label_relative score avg_score user_satisfaction =
     (if user_satisfaction = 1 then (if score > avg_score then 1 else 0)
      else (if score < avg_score then 0 else 1))"

definition calculate_label_confidence :: "real \<Rightarrow> int \<Rightarrow> real" where
  "calculate_label_confidence score label =
     (if label = 1 then min (score / 100) 1 else min ((100 - score) / 100) 1)"

section \<open>The feedback endpoint (routers/feedback.py, submit_feedback)\<close>

record feedback_request =
  rq_analysis_id :: nat
  rq_is_helpful :: bool
  rq_strategy :: string

record strategy_info =
  si_strategy :: string
  si_total_reviews :: nat
  si_saved :: nat
  si_skipped :: nat
  si_label_0 :: nat
  si_label_1 :: nat
  si_average_score :: real

record feedback_response =
  success :: bool
  feedback_count :: nat
  strategy_info :: strategy_info

datatype http_exception = HTTPException nat

text \<open>\<open>review.get('reliability_score', 0)\<close>\<close>

definition get_score :: "review \<Rightarrow> real" where
  "get_score review = (case reliability_score review of None \<Rightarrow> 0 | Some v \<Rightarrow> v)"

text \<open>The choice of the strategy inside the loop (the \<open>if\<close>/\<open>elif\<close> chain on
  \<open>request.strategy\<close>).\<close>

definition label_for :: "string \<Rightarrow> real \<Rightarrow> real \<Rightarrow> int \<Rightarrow> int option" where
  "label_for strat score avg user_satisfaction =
     (if strat = ''weak'' then Some user_satisfaction
      else if strat = ''hybrid'' then smart_label_hybrid score avg user_satisfaction
      else if strat = ''extreme'' then smart_label_extreme score user_satisfaction
      else if strat = ''relative'' then Some (smart_label_relative score avg user_satisfaction)
      else smart_label_hybrid score avg user_satisfaction)"

text \<open>
  The local state of the loop: the rows handed to \<open>db.add\<close>, the counters, and whether
  the local variable \<open>label\<close> has been assigned (the log line after \<open>commit\<close> reads it).
\<close>

record label_loop =
  added :: "feedback list"
  saved_count :: nat
  skipped_count :: nat
  stats_label_0 :: nat
  stats_label_1 :: nat
  label_bound :: bool

definition label_loop_init :: label_loop where
  "label_loop_init =
     \<lparr>added = [], saved_count = 0, skipped_count = 0,
      stats_label_0 = 0, stats_label_1 = 0, label_bound = False\<rparr>"

text \<open>
  The loop over \<open>all_reviews\<close>. A review without text is passed over before \<open>label\<close> is
  assigned. \<open>label_stats\<close> has the two keys \<open>label_0\<close> and \<open>label_1\<close> only; another label
  would raise \<open>KeyError\<close>.
\<close>

fun label_reviews ::
  "feedback_request \<Rightarrow> real \<Rightarrow> int \<Rightarrow> review list \<Rightarrow> label_loop \<Rightarrow> exn + label_loop" where
  "label_reviews request avg user_satisfaction [] st = Inr st"
| "label_reviews request avg user_satisfaction (review # reviews) st =
     (let text = content_or_text review;
          score = get_score review
      in if text = [] then label_reviews request avg user_satisfaction reviews st
         else
           (case label_for (rq_strategy request) score avg user_satisfaction of
              None \<Rightarrow>
                label_reviews request avg user_satisfaction reviews
                  (st\<lparr>skipped_count := skipped_count st + 1, label_bound := True\<rparr>)
            | Some label \<Rightarrow>
                (let row = \<lparr>fb_analysis_id = rq_analysis_id request,
                            review_text = text,
                            fb_confidence = score,
                            tags = label,
                            original_score = score,
                            labeling_strategy = rq_strategy request,
                            label_confidence = calculate_label_confidence score label\<rparr>
                 in if label = 0 then
                      label_reviews request avg user_satisfaction reviews
                        (st\<lparr>added := added st @ [row], saved_count := saved_count st + 1,
                            stats_label_0 := stats_label_0 st + 1, label_bound := True\<rparr>)
                    else if label = 1 then
                      label_reviews request avg user_satisfaction reviews
                        (st\<lparr>added := added st @ [row], saved_count := saved_count st + 1,
                            stats_label_1 := stats_label_1 st + 1, label_bound := True\<rparr>)
                    else Inl KeyError)))"

text \<open>
  \<open>submit_feedback\<close> returns the database and either the HTTP error or the response.
  The deletion of the old rows and the additions are committed together; an exception
  before \<open>commit\<close> is answered with \<open>rollback\<close> and status 500. The log line after
  \<open>commit\<close> reads \<open>label\<close>: when no review had text the variable is unbound, the
  \<open>NameError\<close> is answered with status 500 and the committed deletion stays.
\<close>

definition submit_feedback ::
  "feedback_request \<Rightarrow> db \<Rightarrow> db \<times> (http_exception + feedback_response)" where
  "submit_feedback request d =
     (case find (\<lambda>a. analysis_id a = rq_analysis_id request) (analyses d) of
        None \<Rightarrow> (d, Inl (HTTPException 404))
      | Some an \<Rightarrow>
          if status an \<noteq> ''completed'' then (d, Inl (HTTPException 400))
          else
            (let all_reviews = top_reviews an @ worst_reviews an
             in if all_reviews = [] then (d, Inl (HTTPException 400))
                else
                  (let scores = map get_score all_reviews;
                       avg = (if scores \<noteq> [] then sum_list scores / real (length scores)
                              else 50);
                       user_satisfaction = (if rq_is_helpful request then 1 else 0);
                       kept = filter (\<lambda>f. fb_analysis_id f \<noteq> rq_analysis_id request)
                                (feedbacks d)
                   in case label_reviews request avg user_satisfaction all_reviews
                             label_loop_init of
                        Inl e \<Rightarrow> (d, Inl (HTTPException 500))
                      | Inr st \<Rightarrow>
                          (let d' = d\<lparr>feedbacks := kept @ added st\<rparr>
                           in if \<not> label_bound st then (d', Inl (HTTPException 500))
                              else
                                (d', Inr \<lparr>success = True,
                                          feedback_count = saved_count st,
                                          strategy_info =
                                            \<lparr>si_strategy = rq_strategy request,
                                             si_total_reviews = length all_reviews,
                                             si_saved = saved_count st,
                                             si_skipped = skipped_count st,
                                             si_label_0 = stats_label_0 st,
                                             si_label_1 = stats_label_1 st,
                                             si_average_score = avg\<rparr>\<rparr>)))))"

text \<open>A sequence of submissions, one after the other.\<close>

fun submit_all :: "feedback_request list \<Rightarrow> db \<Rightarrow> db" where
  "submit_all [] d = d"
| "submit_all (request # requests) d = submit_all requests (fst (submit_feedback request d))"

text \<open>The stored feedback rows of one batch.\<close>

definition feedback_of :: "nat \<Rightarrow> db \<Rightarrow> feedback list" where
  "feedback_of aid d = filter (\<lambda>f. fb_analysis_id f = aid) (feedbacks d)"

section \<open>Retraining (scripts/train_model.py)\<close>

record training_example =
  ex_text :: ustring
  ex_label :: int
  ex_source :: string

text \<open>
  What the script takes from outside the database: the original data set
  (\<open>load_original_data()\<close>, \<open>None\<close> when the file is missing or unusable), the training
  pipeline after the gates (feature extraction, split, fit, evaluation and the writing of
  the model files; it yields the validation and the cross-validation accuracy, or
  raises), and the output directory chosen from the clock for a job.
\<close>

record training_env =
  original_data :: "(ustring \<times> int) list option"
  fit_and_evaluate :: "training_example list \<Rightarrow> exn + real \<times> real"
  output_dir_for :: "nat \<Rightarrow> string"

definition load_feedback_data :: "db \<Rightarrow> (ustring \<times> int) list option" where
  "load_feedback_data d =
     (if feedbacks d = [] then None
      else Some (map (\<lambda>f. (review_text f, tags f)) (feedbacks d)))"

definition with_source :: "string \<Rightarrow> (ustring \<times> int) list \<Rightarrow> training_example list" where
  "with_source src df = map (\<lambda>(t, l). \<lparr>ex_text = t, ex_label = l, ex_source = src\<rparr>) df"

definition combine_data ::
  "(ustring \<times> int) list option \<Rightarrow> (ustring \<times> int) list option \<Rightarrow> exn + training_example list" where
  "combine_data original_df feedback_df =
     (let datasets =
            (case original_df of
               None \<Rightarrow> []
             | Some df \<Rightarrow> if length df > 0 then [with_source ''original'' df] else [])
            @ (case feedback_df of
                 None \<Rightarrow> []
               | Some df \<Rightarrow> if length df > 0 then [with_source ''feedback'' df] else [])
      in if datasets = [] then Inl ValueError else Inr (concat datasets))"

datatype train_result = TrainSuccess real real | TrainFailure job_error_message

definition set_job :: "nat \<Rightarrow> (ai_job \<Rightarrow> ai_job) \<Rightarrow> db \<Rightarrow> db" where
  "set_job jid f d = d\<lparr>jobs := update_first (\<lambda>j. job_id j = jid) f (jobs d)\<rparr>"

definition fail_job :: "nat \<Rightarrow> job_error_message \<Rightarrow> db \<Rightarrow> db" where
  "fail_job jid msg d =
     set_job jid (\<lambda>j. j\<lparr>job_status := ''failed'', job_error_message := Some msg\<rparr>) d"

text \<open>
  \<open>train_random_forest\<close>. A missing job makes \<open>job.status = 'running'\<close> raise
  \<open>AttributeError\<close>; the handler finds no job to mark and returns the failure.
\<close>

definition train_random_forest :: "training_env \<Rightarrow> nat \<Rightarrow> db \<Rightarrow> db \<times> train_result" where
  "train_random_forest env jid d =
     (case find (\<lambda>j. job_id j = jid) (jobs d) of
        None \<Rightarrow> (d, TrainFailure (Raised AttributeError))
      | Some job \<Rightarrow>
          (let d1 = set_job jid (\<lambda>j. j\<lparr>job_status := ''running''\<rparr>) d
           in case combine_data (original_data env) (load_feedback_data d1) of
                Inl e \<Rightarrow> (fail_job jid (Raised e) d1, TrainFailure (Raised e))
              | Inr combined_df \<Rightarrow>
                  if length combined_df < 100 then
                    (fail_job jid (TotalDataShortage (length combined_df)) d1,
                     TrainFailure (TotalDataShortage (length combined_df)))
                  else
                    (let label_1_count = length (filter (\<lambda>x. ex_label x = 1) combined_df);
                         label_0_count = length (filter (\<lambda>x. ex_label x = 0) combined_df)
                     in if label_1_count < 5 \<or> label_0_count < 5 then
                          (fail_job jid (LabelTooFew label_1_count label_0_count) d1,
                           TrainFailure (LabelTooFew label_1_count label_0_count))
                        else
                          (case fit_and_evaluate env combined_df of
                             Inl e \<Rightarrow> (fail_job jid (Raised e) d1, TrainFailure (Raised e))
                           | Inr (val_acc, cv_mean) \<Rightarrow>
                               (set_job jid (\<lambda>j. j\<lparr>job_status := ''completed''\<rparr>) d1,
                                TrainSuccess val_acc cv_mean)))))"

text \<open>
  The new version string: \<open>old_version.replace('v', '').split('.')\<close> must give exactly
  two parts, \<open>major\<close> and \<open>minor\<close>, and the new version is \<open>v{major}.{int(minor) + 1}\<close>.
  \<open>int\<close> is modelled on plain strings of decimal digits; any other string is taken to
  raise \<open>ValueError\<close>.
\<close>

fun split_on :: "char \<Rightarrow> string \<Rightarrow> string list" where
  "split_on c [] = [[]]"
| "split_on c (x # xs) =
     (if x = c then [] # split_on c xs
      else (case split_on c xs of [] \<Rightarrow> [[x]] | w # ws \<Rightarrow> (x # w) # ws))"

definition digit_value :: "char \<Rightarrow> nat option" where
  "digit_value ch =
     (let n = of_char ch in if 48 \<le> n \<and> n \<le> (57::nat) then Some (n - 48) else None)"

fun parse_digits :: "nat \<Rightarrow> string \<Rightarrow> nat option" where
  "parse_digits acc [] = Some acc"
| "parse_digits acc (ch # cs) =
     (case digit_value ch of None \<Rightarrow> None | Some v \<Rightarrow> parse_digits (10 * acc + v) cs)"

definition parse_int :: "string \<Rightarrow> exn + nat" where
  "parse_int str =
     (if str = [] then Inl ValueError
      else case parse_digits 0 str of None \<Rightarrow> Inl ValueError | Some n \<Rightarrow> Inr n)"

text \<open>The decimal numeral that an f-string writes for a non-negative integer.\<close>

definition digit_char :: "nat \<Rightarrow> char" where
  "digit_char k = char_of (of_char CHR ''0'' + k)"

fun format_nat :: "nat \<Rightarrow> string" where
  "format_nat n =
     (if 10 \<le> n then format_nat (n div 10) @ [digit_char (n mod 10)] else [digit_char n])"

definition next_version :: "string \<Rightarrow> exn + string" where
  "next_version old_version =
     (case split_on CHR ''.'' (filter (\<lambda>ch. ch \<noteq> CHR ''v'') old_version) of
        [major, minor] \<Rightarrow>
          (case parse_int minor of
             Inl e \<Rightarrow> Inl e
           | Inr n \<Rightarrow> Inr (''v'' @ major @ ''.'' @ format_nat (n + 1)))
      | _ \<Rightarrow> Inl ValueError)"

text \<open>
  \<open>create_new_model_version\<close>: the new row is active, the old one is deactivated, and
  both changes are committed together; an exception rolls back and is raised again.
\<close>

definition create_new_model_version ::
  "db \<Rightarrow> ai_model \<Rightarrow> real \<Rightarrow> string \<Rightarrow> exn + db" where
  "create_new_model_version d old_model acc output_dir =
     (case next_version (version old_model) of
        Inl e \<Rightarrow> Inl e
      | Inr new_version \<Rightarrow>
          (let new_model = \<lparr>model_name = ''RandomForest-review-scorer'',
                            version = new_version,
                            artifact_url = output_dir,
                            accuracy = acc,
                            active = True\<rparr>
           in Inr (d\<lparr>models :=
                      update_first (\<lambda>m. m = old_model) (\<lambda>m. m\<lparr>active := False\<rparr>) (models d)
                      @ [new_model]\<rparr>)))"

text \<open>
  The loop of \<open>check_and_process_jobs\<close> over the pending jobs. An exception of
  \<open>create_new_model_version\<close> reaches the handler around the loop, which logs it: the
  remaining jobs are not processed.
\<close>

fun process_jobs :: "training_env \<Rightarrow> ai_job list \<Rightarrow> db \<Rightarrow> db" where
  "process_jobs env [] d = d"
| "process_jobs env (job # pending) d =
     (case find active (models d) of
        None \<Rightarrow> process_jobs env pending (fail_job (job_id job) NoActiveModel d)
      | Some current_model \<Rightarrow>
          (case train_random_forest env (job_id job) d of
             (d', TrainFailure err) \<Rightarrow> process_jobs env pending d'
           | (d', TrainSuccess acc cv) \<Rightarrow>
               (case create_new_model_version d' current_model acc
                       (output_dir_for env (job_id job)) of
                  Inl e \<Rightarrow> d'
                | Inr d'' \<Rightarrow> process_jobs env pending d'')))"

definition check_and_process_jobs :: "training_env \<Rightarrow> db \<Rightarrow> db" where
  "check_and_process_jobs env d =
     (let pending_jobs =
            sort_key submitted_at
              (filter (\<lambda>j. job_type j = ''training'' \<and> job_status j = ''pending'') (jobs d))
      in if pending_jobs = [] then d else process_jobs env pending_jobs d)"

text \<open>
  The merged data set of a retraining run (empty when there is nothing to merge), and
  the two gates in the words of the specification (section 4.5): fewer than 100
  examples, or fewer than 5 examples of either class.
\<close>

definition merged_dataset :: "training_env \<Rightarrow> db \<Rightarrow> training_example list" where
  "merged_dataset env d =
     (case combine_data (original_data env) (load_feedback_data d) of
        Inl e \<Rightarrow> [] | Inr df \<Rightarrow> df)"

definition count_label :: "int \<Rightarrow> training_example list \<Rightarrow> nat" where
  "count_label l df = length (filter (\<lambda>x. ex_label x = l) df)"

definition spec_gates_fail :: "training_example list \<Rightarrow> bool" where
  "spec_gates_fail df \<longleftrightarrow> length df < 100 \<or> count_label 1 df < 5 \<or> count_label 0 df < 5"

text \<open>
  The reason recorded for a merged data set that the gates reject: \<open>combine_data\<close>
  raises \<open>ValueError\<close> (nothing to merge) on the empty one; below 100 examples the
  message is the shortage of data with the size; otherwise it is the too small class,
  with both class counts.
\<close>

definition gate_reason :: "training_example list \<Rightarrow> job_error_message" where
  "gate_reason df =
     (if df = [] then Raised ValueError
      else if length df < 100 then TotalDataShortage (length df)
      else LabelTooFew (count_label 1 df) (count_label 0 df))"

section \<open>Concrete data for the examples\<close>

definition review_with_text :: "ustring \<Rightarrow> review" where
  "review_with_text t =
     \<lparr>r_text = Some t, r_content = None, reliability_score = None,
      analysis_label = None, color_class = None\<rparr>"

text \<open>
  A text of \<open>n\<close> characters (for \<open>n\<close> from 3): the product keyword \<open>saijeu\<close> (size)
  followed by the letter \<open>a\<close>; and a batch of three such reviews.
\<close>

definition padded_text :: "nat \<Rightarrow> ustring" where
  "padded_text n = [49324, 51060, 51592] @ replicate (n - 3) 97"

definition example_batch :: "review list" where
  "example_batch =
     [review_with_text (padded_text 50), review_with_text (padded_text 39),
      review_with_text (padded_text 44)]"

definition example_db :: db where
  "example_db =
     \<lparr>analyses = [\<lparr>analysis_id = 1, status = ''processing'', a_verdict = None,
                    a_confidence = None, error_message = None, review_count = None,
                    top_reviews = [], worst_reviews = []\<rparr>],
      feedbacks = [], jobs = [], models = []\<rparr>"

definition scored_review :: "ustring \<Rightarrow> real \<Rightarrow> review" where
  "scored_review t s =
     \<lparr>r_text = Some t, r_content = None, reliability_score = Some s,
      analysis_label = None, color_class = None\<rparr>"

definition feedback_db :: db where
  "feedback_db =
     \<lparr>analyses = [\<lparr>analysis_id = 7, status = ''completed'', a_verdict = Some ''suspicious'',
                    a_confidence = Some 50, error_message = None, review_count = Some 3,
                    top_reviews = [scored_review [97] 90, scored_review [98] 10],
                    worst_reviews = [scored_review [99] 50]\<rparr>],
      feedbacks = [], jobs = [], models = []\<rparr>"

definition request :: "nat \<Rightarrow> bool \<Rightarrow> string \<Rightarrow> feedback_request" where
  "request aid helpful strat = \<lparr>rq_analysis_id = aid, rq_is_helpful = helpful, rq_strategy = strat\<rparr>"

text \<open>The loop state with another strategy name written into the rows it has added.\<close>

definition restamp :: "string \<Rightarrow> label_loop \<Rightarrow> label_loop" where
  "restamp s st = st\<lparr>added := map (\<lambda>f. f\<lparr>labeling_strategy := s\<rparr>) (added st)\<rparr>"

definition example_job :: ai_job where
  "example_job = \<lparr>job_id = 1, job_type = ''training'', job_status = ''pending'',
                   submitted_at = 0, job_error_message = None\<rparr>"

definition example_model :: ai_model where
  "example_model = \<lparr>model_name = ''RandomForest-review-scorer'', version = ''v1.0'',
                     artifact_url = ''ai_models'', accuracy = 9 / 10, active = True\<rparr>"

definition training_db :: db where
  "training_db = \<lparr>analyses = [], feedbacks = [], jobs = [example_job], models = [example_model]\<rparr>"

definition example_env :: "(ustring \<times> int) list \<Rightarrow> training_env" where
  "example_env original =
     \<lparr>original_data = Some original,
      fit_and_evaluate = (\<lambda>df. Inr (9 / 10, 9 / 10)),
      output_dir_for = (\<lambda>jid. ''rf_models_retrained/model_1'')\<rparr>"

section \<open>Properties of the arithmetic\<close>

lemma round_half_even_cases:
  "round_half_even y = \<lfloor>y\<rfloor> \<or> round_half_even y = \<lfloor>y\<rfloor> + 1"
  by (simp add: round_half_even_def Let_def)

lemma round_half_even_of_int: "round_half_even (of_int k) = k"
  by (simp add: round_half_even_def Let_def)

lemma round_half_even_bounds:
  assumes "of_int a \<le> y" and "y \<le> of_int b"
  shows "a \<le> round_half_even y \<and> round_half_even y \<le> b"
proof -
  have lo: "a \<le> \<lfloor>y\<rfloor>" using assms(1) by (simp add: le_floor_iff)
  have hi: "\<lfloor>y\<rfloor> \<le> b" using assms(2) by (simp add: floor_le_iff)
  show ?thesis
  proof (cases "\<lfloor>y\<rfloor> = b")
    case True
    then have "y = of_int b" using assms(2) of_int_floor_le[of y] by simp
    then show ?thesis using assms lo by (simp add: round_half_even_of_int)
  next
    case False
    then have "\<lfloor>y\<rfloor> + 1 \<le> b" using hi by simp
    then show ?thesis using round_half_even_cases[of y] lo by auto
  qed
qed

lemma round_half_even_mono:
  assumes "a \<le> b"
  shows "round_half_even a \<le> round_half_even b"
proof (cases "\<lfloor>a\<rfloor> = \<lfloor>b\<rfloor>")
  case True
  have "a - of_int \<lfloor>a\<rfloor> \<le> b - of_int \<lfloor>b\<rfloor>" using assms True by simp
  then show ?thesis using True by (auto simp: round_half_even_def Let_def)
next
  case False
  have "\<lfloor>a\<rfloor> \<le> \<lfloor>b\<rfloor>" using assms by (rule floor_mono)
  with False have "\<lfloor>a\<rfloor> + 1 \<le> \<lfloor>b\<rfloor>" by simp
  moreover have "round_half_even a \<le> \<lfloor>a\<rfloor> + 1" using round_half_even_cases[of a] by auto
  moreover have "\<lfloor>b\<rfloor> \<le> round_half_even b" using round_half_even_cases[of b] by auto
  ultimately show ?thesis by linarith
qed

text \<open>
  The exponent that \<open>scale_exp\<close> finds: it only goes down from a number below \<open>2 ^ 53\<close> and
  only up from a number from \<open>2 ^ 52\<close>, and it stops with the scaled number in
  \<open>[2 ^ 52, 2 ^ 53)\<close> unless the steps run out.
\<close>

lemma scale_exp_down:
  assumes "x < 2 ^ 53"
  shows "scale_exp n x e \<le> e \<and> e - int n \<le> scale_exp n x e
       \<and> x * 2 powi (e - scale_exp n x e) < 2 ^ 53
       \<and> (e - int n < scale_exp n x e \<longrightarrow> 2 ^ 52 \<le> x * 2 powi (e - scale_exp n x e))"
  using assms
proof (induction n arbitrary: x e)
  case 0
  then show ?case by simp
next
  case (Suc n)
  show ?case
  proof (cases "x < 2 ^ 52")
    case True
    then have "2 * x < 2 ^ 53" by simp
    from Suc.IH[OF this, of "e - 1"]
    have ih: "scale_exp n (2 * x) (e - 1) \<le> e - 1"
      "e - 1 - int n \<le> scale_exp n (2 * x) (e - 1)"
      "2 * x * 2 powi (e - 1 - scale_exp n (2 * x) (e - 1)) < 2 ^ 53"
      "e - 1 - int n < scale_exp n (2 * x) (e - 1) \<longrightarrow>
         2 ^ 52 \<le> 2 * x * 2 powi (e - 1 - scale_exp n (2 * x) (e - 1))"
      by blast+
    have s: "scale_exp (Suc n) x e = scale_exp n (2 * x) (e - 1)" using True by simp
    have p: "2 * x * 2 powi (e - 1 - k) = x * 2 powi (e - k)" for k
    proof -
      have "(2::real) powi (e - k) = 2 powi (1 + (e - 1 - k))" by simp
      also have "\<dots> = 2 * 2 powi (e - 1 - k)" by (subst power_int_add) simp_all
      finally show ?thesis by simp
    qed
    show ?thesis unfolding s using ih unfolding p by auto
  next
    case False
    with Suc.prems show ?thesis by simp
  qed
qed

lemma scale_exp_up:
  assumes "2 ^ 52 \<le> x"
  shows "e \<le> scale_exp n x e \<and> scale_exp n x e \<le> e + int n
       \<and> 2 ^ 52 \<le> x * 2 powi (e - scale_exp n x e)
       \<and> (scale_exp n x e < e + int n \<longrightarrow> x * 2 powi (e - scale_exp n x e) < 2 ^ 53)"
  using assms
proof (induction n arbitrary: x e)
  case 0
  then show ?case by simp
next
  case (Suc n)
  show ?case
  proof (cases "2 ^ 53 \<le> x")
    case True
    then have "2 ^ 52 \<le> x / 2" by simp
    from Suc.IH[OF this, of "e + 1"]
    have ih: "e + 1 \<le> scale_exp n (x / 2) (e + 1)"
      "scale_exp n (x / 2) (e + 1) \<le> e + 1 + int n"
      "2 ^ 52 \<le> x / 2 * 2 powi (e + 1 - scale_exp n (x / 2) (e + 1))"
      "scale_exp n (x / 2) (e + 1) < e + 1 + int n \<longrightarrow>
         x / 2 * 2 powi (e + 1 - scale_exp n (x / 2) (e + 1)) < 2 ^ 53"
      by blast+
    have s: "scale_exp (Suc n) x e = scale_exp n (x / 2) (e + 1)" using True by simp
    have p: "x / 2 * 2 powi (e + 1 - k) = x * 2 powi (e - k)" for k
    proof -
      have "(2::real) powi (e + 1 - k) = 2 powi (1 + (e - k))" by (simp add: algebra_simps)
      also have "\<dots> = 2 * 2 powi (e - k)" by (subst power_int_add) simp_all
      finally show ?thesis by simp
    qed
    show ?thesis unfolding s using ih unfolding p by auto
  next
    case False
    with Suc.prems show ?thesis by simp
  qed
qed


lemma round_half_even_le: "y \<le> of_int b \<Longrightarrow> round_half_even y \<le> b"
  using round_half_even_mono[of y "of_int b"] by (simp add: round_half_even_of_int)

lemma round_half_even_ge: "of_int a \<le> y \<Longrightarrow> a \<le> round_half_even y"
  using round_half_even_mono[of "of_int a" y] by (simp add: round_half_even_of_int)

lemma scale_exp_spec:
  "- 2200 \<le> scale_exp 2200 x 0 \<and> scale_exp 2200 x 0 \<le> 2200
   \<and> (- 2200 < scale_exp 2200 x 0 \<longrightarrow> 2 ^ 52 \<le> x * 2 powi (- scale_exp 2200 x 0))
   \<and> (scale_exp 2200 x 0 < 2200 \<longrightarrow> x * 2 powi (- scale_exp 2200 x 0) < 2 ^ 53)"
proof (cases "x < 2 ^ 53")
  case True
  from scale_exp_down[OF True, where n = 2200 and e = 0] show ?thesis by simp
next
  case False
  then have "2 ^ 52 \<le> x" by simp
  from scale_exp_up[OF this, where n = 2200 and e = 0] show ?thesis by simp
qed

lemma two_powi_split: "(2::real) powi (int n + e) = 2 ^ n * 2 powi e"
  by (subst power_int_add) simp_all

lemma two_powi_cancel: "c * 2 powi k * 2 powi (- k) = (c::real)"
  by (simp add: power_int_minus)

lemma scaled_less: "y * 2 powi (- e) < 2 ^ n \<longleftrightarrow> y < (2::real) powi (int n + e)"
proof -
  have p: "0 < (2::real) powi e" by simp
  have "y * 2 powi (- e) = y / 2 powi e" by (simp add: power_int_minus divide_inverse)
  then show ?thesis using p by (simp add: two_powi_split pos_divide_less_eq)
qed

lemma scaled_le: "2 ^ n \<le> y * 2 powi (- e) \<longleftrightarrow> (2::real) powi (int n + e) \<le> y"
proof -
  have p: "0 < (2::real) powi e" by simp
  have "y * 2 powi (- e) = y / 2 powi e" by (simp add: power_int_minus divide_inverse)
  then show ?thesis using p by (simp add: two_powi_split pos_le_divide_eq)
qed

lemma scale_exp_unique:
  assumes "e \<le> 2200"
    and lo: "- 2200 < e \<longrightarrow> 2 ^ 52 \<le> y * 2 powi (- e)"
    and hi: "e < 2200 \<longrightarrow> y * 2 powi (- e) < 2 ^ 53"
    and "- 2200 \<le> e"
  shows "scale_exp 2200 y 0 = e"
proof (rule ccontr)
  let ?g = "scale_exp 2200 y 0"
  assume ne: "?g \<noteq> e"
  note sp = scale_exp_spec[of y]
  show False
  proof (cases "?g < e")
    case True
    then have "?g < 2200" "- 2200 < e" using assms(1) sp by linarith+
    then have "y < 2 powi (int 53 + ?g)" "2 powi (int 52 + e) \<le> y"
      using sp lo by (simp_all only: scaled_less scaled_le)
    moreover have "(2::real) powi (int 53 + ?g) \<le> 2 powi (int 52 + e)"
      using True by (intro power_int_increasing) simp_all
    ultimately show False by linarith
  next
    case False
    with ne have gt: "e < ?g" by simp
    then have "e < 2200" "- 2200 < ?g" using assms(4) sp by linarith+
    then have "y < 2 powi (int 53 + e)" "2 powi (int 52 + ?g) \<le> y"
      using sp hi by (simp_all only: scaled_less scaled_le)
    moreover have "(2::real) powi (int 53 + e) \<le> 2 powi (int 52 + ?g)"
      using gt by (intro power_int_increasing) simp_all
    ultimately show False by linarith
  qed
qed

text \<open>Rounding to double precision is odd, monotone and idempotent.\<close>

lemma binary64_pos:
  "0 < x \<Longrightarrow> binary64 x = of_int (round_half_even (x * 2 powi (- scale_exp 2200 x 0)))
                             * 2 powi (scale_exp 2200 x 0)"
  by (simp add: binary64_def Let_def)

lemma binary64_minus: "binary64 (- x) = - binary64 x"
  by (simp add: binary64_def Let_def)

lemma mantissa_bounds:
  "(scale_exp 2200 x 0 < 2200 \<longrightarrow> round_half_even (x * 2 powi (- scale_exp 2200 x 0)) \<le> 2 ^ 53)
   \<and> (- 2200 < scale_exp 2200 x 0 \<longrightarrow> 2 ^ 52 \<le> round_half_even (x * 2 powi (- scale_exp 2200 x 0)))
   \<and> (0 \<le> x \<longrightarrow> 0 \<le> round_half_even (x * 2 powi (- scale_exp 2200 x 0)))"
proof -
  let ?y = "x * 2 powi (- scale_exp 2200 x 0)"
  note sp = scale_exp_spec[of x]
  have "round_half_even ?y \<le> 2 ^ 53" if "scale_exp 2200 x 0 < 2200"
    using that sp by (intro round_half_even_le) simp
  moreover have "2 ^ 52 \<le> round_half_even ?y" if "- 2200 < scale_exp 2200 x 0"
    using that sp by (intro round_half_even_ge) simp
  moreover have "0 \<le> round_half_even ?y" if "0 \<le> x"
  proof -
    have "0 \<le> ?y" using that by (simp add: less_imp_le)
    then show ?thesis by (intro round_half_even_ge) simp
  qed
  ultimately show ?thesis by blast
qed

lemma binary64_nonneg: "0 \<le> x \<Longrightarrow> 0 \<le> binary64 x"
  using mantissa_bounds[of x]
  by (cases "x = 0") (simp_all add: binary64_def Let_def less_imp_le)

lemma binary64_mono_pos:
  assumes "0 < x" and "x \<le> y"
  shows "binary64 x \<le> binary64 y"
proof -
  let ?ex = "scale_exp 2200 x 0"
  let ?ey = "scale_exp 2200 y 0"
  let ?mx = "round_half_even (x * 2 powi (- ?ex))"
  let ?my = "round_half_even (y * 2 powi (- ?ey))"
  have y: "0 < y" using assms by simp
  note sx = scale_exp_spec[of x] and sy = scale_exp_spec[of y]
  note mx = mantissa_bounds[of x] and my = mantissa_bounds[of y]
  have le: "?ex \<le> ?ey"
  proof (rule ccontr)
    assume "\<not> ?ex \<le> ?ey"
    then have lt: "?ey < ?ex" by simp
    then have "?ey < 2200" "- 2200 < ?ex" using sx sy by linarith+
    then have "y < 2 powi (int 53 + ?ey)" "2 powi (int 52 + ?ex) \<le> x"
      using sx sy by (simp_all only: scaled_less scaled_le)
    moreover have "(2::real) powi (int 53 + ?ey) \<le> 2 powi (int 52 + ?ex)"
      using lt by (intro power_int_increasing) simp_all
    ultimately show False using assms(2) by linarith
  qed
  have "of_int ?mx * 2 powi ?ex \<le> (of_int ?my * 2 powi ?ey :: real)"
  proof (cases "?ex = ?ey")
    case True
    have "x * 2 powi (- ?ey) \<le> y * 2 powi (- ?ey)"
      using assms(2) by (intro mult_right_mono) (simp_all add: less_imp_le)
    then have "round_half_even (x * 2 powi (- ?ey)) \<le> ?my" by (rule round_half_even_mono)
    then have "(of_int (round_half_even (x * 2 powi (- ?ey))) :: real) \<le> of_int ?my" by simp
    then have "of_int (round_half_even (x * 2 powi (- ?ey))) * 2 powi ?ey
                 \<le> (of_int ?my * 2 powi ?ey :: real)"
      by (intro mult_right_mono) (simp_all add: less_imp_le)
    then show ?thesis unfolding True .
  next
    case False
    with le have lt: "?ex < ?ey" by simp
    then have "?ex < 2200" "- 2200 < ?ey" using sx sy by linarith+
    then have a: "?mx \<le> 2 ^ 53" and b: "2 ^ 52 \<le> ?my" using mx my by blast+
    from a have "(of_int ?mx :: real) \<le> of_int (2 ^ 53)" by (simp only: of_int_le_iff)
    then have "of_int ?mx * 2 powi ?ex \<le> (2 ^ 53 * 2 powi ?ex :: real)"
      by (intro mult_right_mono) (simp_all add: less_imp_le)
    also have "\<dots> = 2 powi (int 53 + ?ex)" by (simp only: two_powi_split)
    also have "\<dots> \<le> 2 powi (int 52 + ?ey)"
      using lt by (intro power_int_increasing) simp_all
    also have "\<dots> = 2 ^ 52 * 2 powi ?ey" by (simp only: two_powi_split)
    also have "\<dots> \<le> of_int ?my * 2 powi ?ey"
    proof -
      from b have "(of_int (2 ^ 52) :: real) \<le> of_int ?my" by (simp only: of_int_le_iff)
      then show ?thesis
        by (intro mult_right_mono) (simp_all add: less_imp_le)
    qed
    finally show ?thesis .
  qed
  then show ?thesis by (simp only: binary64_pos[OF assms(1)] binary64_pos[OF y])
qed

lemma binary64_zero: "binary64 0 = 0"
  by (simp add: binary64_def)

lemma binary64_mono:
  assumes "x \<le> y"
  shows "binary64 x \<le> binary64 y"
proof -
  consider "0 < x" | "x \<le> 0" "0 \<le> y" | "y < 0" by linarith
  then show ?thesis
  proof cases
    case 1
    then show ?thesis using assms by (rule binary64_mono_pos)
  next
    case 2
    have "0 \<le> binary64 (- x)" using 2(1) by (intro binary64_nonneg) simp
    then have "binary64 x \<le> 0" by (simp add: binary64_minus)
    moreover have "0 \<le> binary64 y" using 2(2) by (rule binary64_nonneg)
    ultimately show ?thesis by simp
  next
    case 3
    have "binary64 (- y) \<le> binary64 (- x)" using 3 assms by (intro binary64_mono_pos) simp_all
    then show ?thesis by (simp add: binary64_minus)
  qed
qed

lemma binary64_idem_pos:
  assumes "0 < x"
  shows "binary64 (binary64 x) = binary64 x"
proof -
  let ?e = "scale_exp 2200 x 0"
  let ?m = "round_half_even (x * 2 powi (- ?e))"
  define b :: real where "b = of_int ?m * 2 powi ?e"
  have bx: "binary64 x = b" unfolding b_def using assms by (rule binary64_pos)
  note sp = scale_exp_spec[of x] and mb = mantissa_bounds[of x]
  have m0: "0 \<le> ?m" using mb assms by simp
  have scaled: "b * 2 powi (- ?e) = of_int ?m"
    unfolding b_def by (rule two_powi_cancel)
  show ?thesis
  proof (cases "?m = 0")
    case True
    then have "b = 0" unfolding b_def by simp
    then show ?thesis unfolding bx by (simp add: binary64_zero)
  next
    case False
    with m0 have mpos: "0 < ?m" by simp
    then have bpos: "0 < b" unfolding b_def by simp
    show ?thesis
    proof (cases "?m = 2 ^ 53 \<and> ?e < 2200")
      case True
      then have "(of_int ?m :: real) = of_int (2 ^ 53)" by simp
      then have m53: "(of_int ?m :: real) = 2 ^ 53" by simp
      have b53: "b = 2 powi (int 53 + ?e)" unfolding b_def m53 by (simp only: two_powi_split)
      have b52: "b = 2 ^ 52 * 2 powi (?e + 1)"
      proof -
        have "int 53 + ?e = int 52 + (?e + 1)" by simp
        then show ?thesis unfolding b53 by (simp only: two_powi_split)
      qed
      have sc: "b * 2 powi (- (?e + 1)) = 2 ^ 52"
        unfolding b52 by (rule two_powi_cancel)
      have g: "scale_exp 2200 b 0 = ?e + 1"
      proof (rule scale_exp_unique)
        show "?e + 1 \<le> 2200" using True by simp
        show "- 2200 < ?e + 1 \<longrightarrow> 2 ^ 52 \<le> b * 2 powi (- (?e + 1))" unfolding sc by simp
        show "?e + 1 < 2200 \<longrightarrow> b * 2 powi (- (?e + 1)) < 2 ^ 53" unfolding sc by simp
        show "- 2200 \<le> ?e + 1" using sp by simp
      qed
      have "round_half_even (b * 2 powi (- (?e + 1))) = 2 ^ 52"
        unfolding sc using round_half_even_of_int[of "2 ^ 52"] by simp
      then have "binary64 b = 2 ^ 52 * 2 powi (?e + 1)"
        unfolding binary64_pos[OF bpos] g by simp
      then show ?thesis unfolding bx b52[symmetric] .
    next
      case False
      have g: "scale_exp 2200 b 0 = ?e"
      proof (rule scale_exp_unique)
        show "?e \<le> 2200" using sp by simp
        show "- 2200 < ?e \<longrightarrow> 2 ^ 52 \<le> b * 2 powi (- ?e)"
          unfolding scaled using mb by auto
        show "?e < 2200 \<longrightarrow> b * 2 powi (- ?e) < 2 ^ 53"
        proof
          assume "?e < 2200"
          then have "?m \<le> 2 ^ 53" "?m \<noteq> 2 ^ 53" using mb False by blast+
          then have "?m < 2 ^ 53" by simp
          then have "(of_int ?m :: real) < of_int (2 ^ 53)" by (simp only: of_int_less_iff)
          then show "b * 2 powi (- ?e) < 2 ^ 53" unfolding scaled by simp
        qed
        show "- 2200 \<le> ?e" using sp by simp
      qed
      have "round_half_even (b * 2 powi (- ?e)) = ?m"
        unfolding scaled by (rule round_half_even_of_int)
      then have "binary64 b = of_int ?m * 2 powi ?e"
        unfolding binary64_pos[OF bpos] g by simp
      then show ?thesis unfolding bx b_def .
    qed
  qed
qed

lemma binary64_idem: "binary64 (binary64 x) = binary64 x"
proof -
  consider "0 < x" | "x = 0" | "x < 0" by linarith
  then show ?thesis
  proof cases
    case 1
    then show ?thesis by (rule binary64_idem_pos)
  next
    case 2
    then show ?thesis by (simp add: binary64_zero)
  next
    case 3
    then have "binary64 (binary64 (- x)) = binary64 (- x)" by (intro binary64_idem_pos) simp
    then show ?thesis by (simp add: binary64_minus)
  qed
qed

lemma exact_arith_simps [simp]:
  "fl exact_arith x = x" "round_nd exact_arith = py_round"
  "fadd exact_arith a b = a + b" "fmul exact_arith a b = a * b"
  "fdiv exact_arith a b = a / b" "lit exact_arith c = c"
  by (simp_all add: exact_arith_def fadd_def fmul_def fdiv_def lit_def)

lemma sound_exact_arith: "sound_arith exact_arith"
proof -
  have "\<exists>k::int. 0 \<le> k \<and> k \<le> 1000 \<and> py_round x 1 = of_int k / 10"
    if "0 \<le> x \<and> x \<le> 100" for x
  proof -
    have "of_int 0 \<le> x * 10" "x * 10 \<le> of_int 1000" using that by simp_all
    from round_half_even_bounds[OF this]
    have "0 \<le> round_half_even (x * 10) \<and> round_half_even (x * 10) \<le> 1000" .
    then show ?thesis by (auto simp: py_round_def)
  qed
  then show ?thesis by (simp add: sound_arith_def)
qed

text \<open>Evaluation of the double-precision operations on given numbers.\<close>

lemma scale_exp_numeral:
  "scale_exp (numeral n) x e =
     (if x < 2 ^ 52 then scale_exp (pred_numeral n) (2 * x) (e - 1)
      else if 2 ^ 53 \<le> x then scale_exp (pred_numeral n) (x / 2) (e + 1)
      else e)"
  by (simp add: numeral_eq_Suc)

lemmas eval_fp = ieee_arith_def numpy_round_def binary64_def scale_exp_numeral
  round_half_even_def Let_def power_int_minus fadd_def fmul_def fdiv_def lit_def

lemma binary64_examples:
  "binary64 1 = 1" "binary64 100 = 100" "binary64 1000 = 1000"
  "binary64 (11 / 50) = 7926335344172073 / 36028797018963968"
  "binary64 (100 * binary64 (85 / 100)) + binary64 (100 * binary64 (15 / 100)) = 100"
  "binary64 (19 / 100) < binary64 (1 / 5)"
  by (simp_all add: eval_fp)

lemma ieee_arith_simps:
  "fl ieee_arith = binary64" "round_nd ieee_arith = numpy_round"
  by (simp_all add: ieee_arith_def)

lemma sound_ieee_arith: "sound_arith ieee_arith"
proof -
  have "\<exists>k::int. 0 \<le> k \<and> k \<le> 1000 \<and> numpy_round x 1 = binary64 (of_int k / 10)"
    if "0 \<le> x \<and> x \<le> 100" for x
  proof -
    have "0 \<le> binary64 (x * 10)" using that by (intro binary64_nonneg) simp
    moreover have "binary64 (x * 10) \<le> binary64 1000"
      using that by (intro binary64_mono) simp
    ultimately have "of_int 0 \<le> binary64 (x * 10)" "binary64 (x * 10) \<le> of_int 1000"
      by (simp_all add: binary64_examples)
    from round_half_even_bounds[OF this]
    have "0 \<le> round_half_even (binary64 (x * 10))
          \<and> round_half_even (binary64 (x * 10)) \<le> 1000" .
    then show ?thesis by (auto simp: numpy_round_def)
  qed
  then show ?thesis
    unfolding sound_arith_def ieee_arith_simps
    using binary64_mono binary64_idem binary64_zero binary64_examples(1,2,5) by simp
qed

section \<open>Properties of the scorer\<close>

lemma sound_arithD:
  assumes "sound_arith ar"
  shows "x \<le> y \<Longrightarrow> fl ar x \<le> fl ar y"
    and "fl ar (fl ar x) = fl ar x"
    and "fl ar 0 = 0" and "fl ar 1 = 1" and "fl ar 100 = 100"
    and "fl ar (100 * fl ar (85 / 100)) + fl ar (100 * fl ar (15 / 100)) \<le> 100"
    and "0 \<le> x \<Longrightarrow> x \<le> 100 \<Longrightarrow>
           \<exists>k::int. 0 \<le> k \<and> k \<le> 1000 \<and> round_nd ar x 1 = fl ar (of_int k / 10)"
  using assms unfolding sound_arith_def by blast+

lemma fl_nonneg:
  assumes "sound_arith ar" and "0 \<le> x"
  shows "0 \<le> fl ar x"
  using sound_arithD(1)[OF assms(1), of 0 x] sound_arithD(3)[OF assms(1)] assms(2) by simp

lemma fl_le_1:
  assumes "sound_arith ar" and "x \<le> 1"
  shows "fl ar x \<le> 1"
  using sound_arithD(1)[OF assms(1), of x 1] sound_arithD(4)[OF assms(1)] assms(2) by simp

lemma fl_le_100:
  assumes "sound_arith ar" and "x \<le> 100"
  shows "fl ar x \<le> 100"
  using sound_arithD(1)[OF assms(1), of x 100] sound_arithD(5)[OF assms(1)] assms(2) by simp

lemma fl_scaled:
  assumes s: "sound_arith ar" and r0: "0 \<le> raw" and r1: "raw \<le> 100" and c: "0 \<le> c"
  shows "0 \<le> fl ar (raw * fl ar c) \<and> fl ar (raw * fl ar c) \<le> fl ar (100 * fl ar c)"
proof -
  have a: "0 \<le> fl ar c" using s c by (rule fl_nonneg)
  have "raw * fl ar c \<le> 100 * fl ar c" using a r1 by (rule mult_right_mono[rotated])
  then have "fl ar (raw * fl ar c) \<le> fl ar (100 * fl ar c)" by (rule sound_arithD(1)[OF s])
  moreover have "0 \<le> raw * fl ar c" using a r0 by simp
  then have "0 \<le> fl ar (raw * fl ar c)" by (rule fl_nonneg[OF s])
  ultimately show ?thesis by simp
qed

lemma fl_scaled_small:
  assumes s: "sound_arith ar" and r0: "0 \<le> raw" and r1: "raw \<le> 100"
    and c: "0 \<le> c" "c \<le> 1"
  shows "0 \<le> fl ar (raw * fl ar c) \<and> fl ar (raw * fl ar c) \<le> 100"
proof -
  have a: "0 \<le> fl ar c" "fl ar c \<le> 1" using s c by (auto intro: fl_nonneg fl_le_1)
  have "raw * fl ar c \<le> 100 * 1" using a r0 r1 by (intro mult_mono) simp_all
  then have "fl ar (raw * fl ar c) \<le> 100" using s by (auto intro: fl_le_100)
  moreover have "0 \<le> raw * fl ar c" using a r0 by simp
  then have "0 \<le> fl ar (raw * fl ar c)" by (rule fl_nonneg[OF s])
  ultimately show ?thesis by simp
qed

lemma spec_final_score_range:
  assumes s: "sound_arith ar" and r0: "0 \<le> raw" and r1: "raw \<le> 100"
  shows "0 \<le> spec_final_score ar p d n raw \<and> spec_final_score ar p d n raw \<le> 100"
proof -
  define c85 where "c85 = fl ar (85 / 100)"
  define c15 where "c15 = fl ar (15 / 100)"
  define bonus where "bonus = fl ar (real (min n 50) / 50)"
  define a where "a = fl ar (raw * c85)"
  define b0 where "b0 = fl ar (raw * c15)"
  define b where "b = fl ar (b0 * bonus)"
  have bonus: "0 \<le> bonus" "bonus \<le> 1"
    unfolding bonus_def using s by (auto intro: fl_nonneg fl_le_1)
  have a: "0 \<le> a" "a \<le> fl ar (100 * c85)"
    unfolding a_def c85_def using fl_scaled[OF s r0 r1, of "85 / 100"] by simp_all
  have b0: "0 \<le> b0" "b0 \<le> fl ar (100 * c15)"
    unfolding b0_def c15_def using fl_scaled[OF s r0 r1, of "15 / 100"] by simp_all
  have "b0 * bonus \<le> fl ar (100 * c15) * 1"
    using b0 bonus by (intro mult_mono) simp_all
  then have "b \<le> fl ar (fl ar (100 * c15))"
    unfolding b_def using sound_arithD(1)[OF s] by simp
  then have b: "b \<le> fl ar (100 * c15)" by (simp add: sound_arithD(2)[OF s])
  have "0 \<le> b0 * bonus" using b0 bonus by simp
  then have b': "0 \<le> b" unfolding b_def by (rule fl_nonneg[OF s])
  have "fl ar (100 * c85) + fl ar (100 * c15) \<le> 100"
    unfolding c85_def c15_def by (rule sound_arithD(6)[OF s])
  with a b have "a + b \<le> 100" by linarith
  then have "fl ar (a + b) \<le> 100" by (rule fl_le_100[OF s])
  moreover have "0 \<le> a + b" using a b' by simp
  then have "0 \<le> fl ar (a + b)" by (rule fl_nonneg[OF s])
  ultimately have big: "0 \<le> fl ar (a + b) \<and> fl ar (a + b) \<le> 100" by simp
  have r3: "fadd ar (fmul ar raw (lit ar 0.85))
              (fmul ar (fmul ar raw (lit ar 0.15)) (fdiv ar (real (min n 50)) 50))
            = fl ar (a + b)"
    by (simp add: fadd_def fmul_def fdiv_def lit_def a_def b_def b0_def c85_def c15_def
          bonus_def)
  have r1': "0 \<le> fmul ar raw (lit ar 0.25) \<and> fmul ar raw (lit ar 0.25) \<le> 100"
    using fl_scaled_small[OF s r0 r1, of "0.25"] by (simp add: fmul_def lit_def)
  have r2: "0 \<le> fmul ar raw (lit ar 0.1) \<and> fmul ar raw (lit ar 0.1) \<le> 100"
    using fl_scaled_small[OF s r0 r1, of "0.1"] by (simp add: fmul_def lit_def)
  show ?thesis
    unfolding spec_final_score_def Let_def using r1' r2 big
    by (simp only: r3 split: if_splits) simp
qed

lemma predict_eq_spec:
  assumes "text \<noteq> []"
    and "embed sc text = Inr emb"
    and "predict_proba sc
           (emb @ [fdiv ar (real (min (length text) 100)) 100,
                   of_bool (contains_any PRODUCT_KEYWORDS text),
                   of_bool (contains_any DELIVERY_KEYWORDS text)]) = Inr probs"
    and "2 \<le> length probs"
  shows "predict ar sc text =
           Inr (round_nd ar (spec_final_score ar (contains_any PRODUCT_KEYWORDS text)
                            (contains_any DELIVERY_KEYWORDS text)
                            (length text) (fmul ar (probs ! 1) 100)) 1)"
proof (cases "contains_any PRODUCT_KEYWORDS text"; cases "contains_any DELIVERY_KEYWORDS text")
qed (use assms in \<open>simp_all add: predict_def extract_features_def spec_final_score_def
      Let_def\<close>)


lemma size_is_product_keyword: "contains_any PRODUCT_KEYWORDS [49324, 51060, 51592]"
  by (simp add: contains_any_def PRODUCT_KEYWORDS_def sublist_Cons_right)

lemma size_is_no_delivery_keyword: "\<not> contains_any DELIVERY_KEYWORDS [49324, 51060, 51592]"
  by (simp add: contains_any_def DELIVERY_KEYWORDS_def sublist_Cons_right)

lemma padded_text_props:
  "padded_text n \<noteq> []"
  "3 \<le> n \<Longrightarrow> length (padded_text n) = n"
  "contains_any PRODUCT_KEYWORDS (padded_text n)"
  "\<not> contains_any DELIVERY_KEYWORDS (padded_text n)"
proof -
  show "padded_text n \<noteq> []" by (simp add: padded_text_def)
  show "3 \<le> n \<Longrightarrow> length (padded_text n) = n" by (simp add: padded_text_def)
  have "sublist [49324, 51060, 51592] (padded_text n)"
    unfolding padded_text_def by (rule sublist_append_rightI)
  moreover have "[49324, 51060, 51592] \<in> set PRODUCT_KEYWORDS"
    by (simp add: PRODUCT_KEYWORDS_def)
  ultimately show "contains_any PRODUCT_KEYWORDS (padded_text n)"
    unfolding contains_any_def list_ex_iff by blast
  have "set (padded_text n) \<subseteq> {49324, 51060, 51592, 97}"
    by (auto simp: padded_text_def)
  moreover have "\<forall>k \<in> set DELIVERY_KEYWORDS. \<not> set k \<subseteq> {49324, 51060, 51592, 97}"
    by (simp add: DELIVERY_KEYWORDS_def)
  ultimately have "\<forall>k \<in> set DELIVERY_KEYWORDS. \<not> sublist k (padded_text n)"
    using set_mono_sublist by blast
  then show "\<not> contains_any DELIVERY_KEYWORDS (padded_text n)"
    unfolding contains_any_def list_ex_iff by blast
qed

text \<open>
  The score of a text with a product keyword and no delivery keyword, one operation
  after the other (the third rule).
\<close>

lemma predict_by_steps:
  assumes "text \<noteq> []"
    and "embed sc text = Inr emb"
    and "contains_any PRODUCT_KEYWORDS text"
    and "\<not> contains_any DELIVERY_KEYWORDS text"
    and "\<forall>f. predict_proba sc f = Inr [q, p]"
    and "fmul ar p 100 = raw"
    and "fmul ar raw (lit ar 0.85) = a"
    and "fmul ar raw (lit ar 0.15) = b0"
    and "fdiv ar (real (min (length text) 50)) 50 = bonus"
    and "fmul ar b0 bonus = b"
    and "fadd ar a b = fin"
    and "round_nd ar fin 1 = s"
  shows "predict ar sc text = Inr s"
proof -
  have "predict ar sc text =
           Inr (round_nd ar (spec_final_score ar (contains_any PRODUCT_KEYWORDS text)
                            (contains_any DELIVERY_KEYWORDS text)
                            (length text) (fmul ar ([q, p] ! 1) 100)) 1)"
    using assms(1,2) by (rule predict_eq_spec) (simp_all add: assms(5))
  then have e: "predict ar sc text =
           Inr (round_nd ar (spec_final_score ar True False (length text) raw) 1)"
    using assms(3,4,6) by simp
  have "spec_final_score ar True False (length text) raw = fin"
    unfolding spec_final_score_def Let_def
    by (simp only: assms(7-11) simp_thms if_True if_False)
  with e assms(12) show ?thesis by (simp only:)
qed

text \<open>
  In double precision, the probability 0.22 and a text of 25 characters with a product
  keyword: 20.349999999999998 before \<open>round\<close>, and the score 20.3. Exact arithmetic gives
  20.35 and the score 20.4.
\<close>

lemma predict_double_precision_steps:
  "fmul ieee_arith (binary64 (11 / 50)) 100 = 22"
  "fmul ieee_arith 22 (lit ieee_arith 0.85) = 5263582064489267 / 281474976710656"
  "fmul ieee_arith 22 (lit ieee_arith 0.15) = 3715469692580659 / 1125899906842624"
  "fdiv ieee_arith 25 50 = 1 / 2"
  "fmul ieee_arith (3715469692580659 / 1125899906842624) (1 / 2)
     = 3715469692580659 / 2251799813685248"
  "fadd ieee_arith (5263582064489267 / 281474976710656) (3715469692580659 / 2251799813685248)
     = 5728015776061849 / 281474976710656"
  "round_nd ieee_arith (5728015776061849 / 281474976710656) 1 = binary64 (203 / 10)"
  by (simp_all add: eval_fp)

lemma predict_double_precision:
  "predict ieee_arith (constant_scorer (binary64 (11 / 50))) (padded_text 25) = Inr (binary64 (203 / 10))"
  by (rule predict_by_steps[OF _ _ _ _ _ predict_double_precision_steps(1-3) _ predict_double_precision_steps(5-7)])
     (simp_all add: predict_double_precision_steps(4) padded_text_props constant_scorer_def)

lemma predict_exact_arithmetic:
  "predict exact_arith (constant_scorer (11 / 50)) (padded_text 25) = Inr (204 / 10)"
  by (simp add: predict_def extract_features_def constant_scorer_def padded_text_props
        py_round_def round_half_even_def Let_def)



text \<open>
  C8. The empty text gets the score 0 whatever the scorer and the arithmetic are (so
  neither the embedding nor the classifier has a say, even one that always raises).
  In a sound arithmetic, which double precision is and exact arithmetic too, when the
  classifier yields probabilities between 0 and 1, every score that \<open>predict\<close> returns
  lies between 0 and 100 and is the float of a whole number of tenths; and \<open>predict\<close>
  does return a score whenever the embedding and the classifier answer, the latter with
  two classes at least. In exact arithmetic the float of a number of tenths is that
  number.
\<close>

theorem predict_range:
  assumes sound: "sound_arith ar"
    and probabilities:
    "\<forall>f probs. predict_proba sc f = Inr probs \<longrightarrow> (\<forall>p \<in> set probs. 0 \<le> p \<and> p \<le> 1)"
  shows "sound_arith ieee_arith \<and> sound_arith exact_arith
    \<and> predict any_arith any_scorer [] = Inr 0
    \<and> (\<forall>s. predict ar sc text = Inr s \<longrightarrow>
           0 \<le> s \<and> s \<le> 100 \<and> (\<exists>k::int. s = fl ar (of_int k / 10)))
    \<and> ((\<exists>emb. embed sc text = Inr emb)
         \<and> (\<forall>f. \<exists>probs. predict_proba sc f = Inr probs \<and> 2 \<le> length probs)
         \<longrightarrow> (\<exists>s. predict ar sc text = Inr s))"
proof -
  have ok: "\<forall>p \<in> set probs. 0 \<le> p \<and> p \<le> 1" if "predict_proba sc f = Inr probs" for f probs
    using probabilities that by blast
  have empty: "predict any_arith any_scorer [] = Inr 0" by (simp add: predict_def)
  have range: "0 \<le> s \<and> s \<le> 100 \<and> (\<exists>k::int. s = fl ar (of_int k / 10))"
    if r: "predict ar sc text = Inr s" for s
  proof (cases "text = []")
    case True
    have "fl ar (of_int 0 / 10) = 0" using sound_arithD(3)[OF sound] by simp
    then have "\<exists>k::int. (0::real) = fl ar (of_int k / 10)" by metis
    with True r show ?thesis by (auto simp: predict_def)
  next
    case False
    from r False obtain emb where e: "embed sc text = Inr emb"
      by (auto simp: predict_def extract_features_def split: sum.splits)
    let ?f = "emb @ [fdiv ar (real (min (length text) 100)) 100,
                     of_bool (contains_any PRODUCT_KEYWORDS text),
                     of_bool (contains_any DELIVERY_KEYWORDS text)]"
    from r False e obtain probs where p: "predict_proba sc ?f = Inr probs"
      by (cases "predict_proba sc ?f")
         (auto simp: predict_def extract_features_def Let_def of_bool_def split: if_splits)
    have l: "2 \<le> length probs"
    proof (rule ccontr)
      assume "\<not> 2 \<le> length probs"
      then show False using r False e p
        by (auto simp: predict_def extract_features_def Let_def of_bool_def split: if_splits)
    qed
    have "probs ! 1 \<in> set probs" using l by simp
    with ok[OF p] have pr: "0 \<le> probs ! 1" "probs ! 1 \<le> 1" by auto
    define raw where "raw = fmul ar (probs ! 1) 100"
    define fin where "fin = spec_final_score ar (contains_any PRODUCT_KEYWORDS text)
                  (contains_any DELIVERY_KEYWORDS text) (length text) raw"
    have "0 \<le> probs ! 1 * 100" "probs ! 1 * 100 \<le> 100" using pr by simp_all
    then have raw: "0 \<le> raw" "raw \<le> 100"
      unfolding raw_def fmul_def using sound by (auto intro: fl_nonneg fl_le_100)
    have fin: "0 \<le> fin" "fin \<le> 100"
      unfolding fin_def using spec_final_score_range[OF sound raw] by simp_all
    have s: "s = round_nd ar fin 1"
      using predict_eq_spec[OF False e p l] r by (simp add: fin_def raw_def)
    from sound_arithD(7)[OF sound fin] obtain k :: int
      where k: "0 \<le> k" "k \<le> 1000" "round_nd ar fin 1 = fl ar (of_int k / 10)" by blast
    have "0 \<le> (of_int k / 10 :: real)" "(of_int k / 10 :: real) \<le> 100" using k(1,2) by simp_all
    then have "0 \<le> fl ar (of_int k / 10)" "fl ar (of_int k / 10) \<le> 100"
      using sound by (auto intro: fl_nonneg fl_le_100)
    with s k(3) show ?thesis by auto
  qed
  have total: "\<exists>s. predict ar sc text = Inr s"
    if a: "(\<exists>emb. embed sc text = Inr emb)
           \<and> (\<forall>f. \<exists>probs. predict_proba sc f = Inr probs \<and> 2 \<le> length probs)"
  proof (cases "text = []")
    case True
    then show ?thesis by (simp add: predict_def)
  next
    case False
    from a obtain emb where e: "embed sc text = Inr emb" by blast
    let ?f = "emb @ [fdiv ar (real (min (length text) 100)) 100,
                     of_bool (contains_any PRODUCT_KEYWORDS text),
                     of_bool (contains_any DELIVERY_KEYWORDS text)]"
    from a obtain probs where p: "predict_proba sc ?f = Inr probs" "2 \<le> length probs"
      by blast
    from predict_eq_spec[OF False e p] show ?thesis by blast
  qed
  from sound_ieee_arith sound_exact_arith empty range total show ?thesis by blast
qed

theorem predict_range_witness:
  "sound_arith ieee_arith
   \<and> predict ieee_arith (failing_scorer [] (4 / 5)) [] = Inr 0
   \<and> predict ieee_arith (constant_scorer (binary64 (11 / 50))) (padded_text 25)
       = Inr (binary64 (203 / 10))
   \<and> 0 \<le> binary64 (203 / 10) \<and> binary64 (203 / 10) \<le> 100
   \<and> (\<exists>k::int. binary64 (203 / 10) = fl ieee_arith (of_int k / 10))
   \<and> predict exact_arith (constant_scorer (11 / 50)) (padded_text 25) = Inr (204 / 10)
   \<and> (\<exists>k::int. (204 / 10 :: real) = fl exact_arith (of_int k / 10))"
proof -
  let ?sc = "constant_scorer (binary64 (11 / 50))"
  have ok: "\<forall>f probs. predict_proba ?sc f = Inr probs
              \<longrightarrow> (\<forall>p \<in> set probs. 0 \<le> p \<and> p \<le> 1)"
    by (auto simp: constant_scorer_def binary64_examples)
  from predict_range[OF sound_ieee_arith ok, of ieee_arith "failing_scorer [] (4 / 5)"
         "padded_text 25"] predict_double_precision
  have i: "sound_arith ieee_arith
      \<and> predict ieee_arith (failing_scorer [] (4 / 5)) [] = Inr 0
      \<and> 0 \<le> binary64 (203 / 10) \<and> binary64 (203 / 10) \<le> 100
      \<and> (\<exists>k::int. binary64 (203 / 10) = fl ieee_arith (of_int k / 10))"
    by blast
  have ok': "\<forall>f probs. predict_proba (constant_scorer (11 / 50)) f = Inr probs
              \<longrightarrow> (\<forall>p \<in> set probs. 0 \<le> p \<and> p \<le> 1)"
    by (auto simp: constant_scorer_def)
  from predict_range[OF sound_exact_arith ok', of exact_arith "constant_scorer (11 / 50)"
         "padded_text 25"] predict_exact_arithmetic
  have e: "\<exists>k::int. (204 / 10 :: real) = fl exact_arith (of_int k / 10)"
    by blast
  from i e predict_double_precision predict_exact_arithmetic show ?thesis by blast
qed

section \<open>Properties of the analyzer\<close>


lemma labels_distinct:
  "LABEL_VERY_HELPFUL \<noteq> LABEL_PARTLY_HELPFUL \<and> LABEL_VERY_HELPFUL \<noteq> LABEL_NOT_HELPFUL
   \<and> LABEL_PARTLY_HELPFUL \<noteq> LABEL_NOT_HELPFUL"
  by (simp add: LABEL_VERY_HELPFUL_def LABEL_PARTLY_HELPFUL_def LABEL_NOT_HELPFUL_def)

lemma verdict_summarize:
  "verdict (summarize ar reviews scores enriched) =
     (let trust = fdiv ar (mean_score ar scores) 100
      in if trust > lit ar 0.7 then ''safe''
         else if lit ar 0.3 \<le> trust \<and> trust \<le> lit ar 0.7 then ''suspicious''
         else ''malicious'')"
  by (simp add: summarize_def mean_score_def Let_def)


lemma mean_score_three:
  "mean_score ar [x, y, z] = fdiv ar (fadd ar (fadd ar (fadd ar 0 x) y) z) 3"
  by (simp add: mean_score_def)









lemma mean_double_precision_steps:
  "binary64 (712 / 10) = 5010254585449677 / 70368744177664"
  "binary64 (689 / 10) = 2424203236920525 / 35184372088832"
  "binary64 (699 / 10) = 2459387609009357 / 35184372088832"
  "fadd ieee_arith 0 (5010254585449677 / 70368744177664) = 5010254585449677 / 70368744177664"
  "fadd ieee_arith (5010254585449677 / 70368744177664) (2424203236920525 / 35184372088832)
     = 1232332632411341 / 8796093022208"
  "fadd ieee_arith (1232332632411341 / 8796093022208) (2459387609009357 / 35184372088832)
     = 7388718138654721 / 35184372088832"
  "fdiv ieee_arith (7388718138654721 / 35184372088832) 3 = 4925812092436481 / 70368744177664"
  "fdiv ieee_arith (4925812092436481 / 70368744177664) 100 = 788129934789837 / 1125899906842624"
  "lit ieee_arith 0.7 < 788129934789837 / 1125899906842624"
  by (simp_all add: eval_fp)

lemma mean_double_precision:
  "mean_score ieee_arith [binary64 (712 / 10), binary64 (689 / 10), binary64 (699 / 10)]
     = 4925812092436481 / 70368744177664"
  by (simp only: mean_score_three mean_double_precision_steps)

lemma verdict_double_precision:
  "verdict (summarize ieee_arith reviews
              [binary64 (712 / 10), binary64 (689 / 10), binary64 (699 / 10)] enriched)
     = ''safe''"
  by (simp only: verdict_summarize Let_def mean_double_precision
        mean_double_precision_steps(8,9) if_True)

text \<open>
  The verdict depends on the order of the reviews: added in the order 68.9, 69.9, 71.2
  the scores sum to 210, the mean divided by 100 is the float of 0.7, and the verdict is
  \<open>suspicious\<close>.
\<close>

lemma mean_reordered_steps:
  "fadd ieee_arith 0 (2424203236920525 / 35184372088832) = 2424203236920525 / 35184372088832"
  "fadd ieee_arith (2424203236920525 / 35184372088832) (2459387609009357 / 35184372088832)
     = 2441795422964941 / 17592186044416"
  "fadd ieee_arith (2441795422964941 / 17592186044416) (5010254585449677 / 70368744177664) = 210"
  "fdiv ieee_arith 210 3 = 70"
  "fdiv ieee_arith 70 100 = 3152519739159347 / 4503599627370496"
  "\<not> lit ieee_arith 0.7 < 3152519739159347 / 4503599627370496"
  "lit ieee_arith 0.3 \<le> 3152519739159347 / 4503599627370496"
  "3152519739159347 / 4503599627370496 \<le> lit ieee_arith 0.7"
  by (simp_all add: eval_fp)

lemma verdict_depends_on_order:
  "verdict (summarize ieee_arith reviews
              [binary64 (689 / 10), binary64 (699 / 10), binary64 (712 / 10)] enriched)
     = ''suspicious''"
  by (simp only: verdict_summarize Let_def mean_score_three mean_double_precision_steps(1-3)
        mean_reordered_steps simp_thms if_True if_False)

text \<open>
  The same batch in exact arithmetic: the scores are 71.2, 68.9 and 69.9, the mean is 70
  and the verdict is \<open>suspicious\<close>.
\<close>

lemma score_reviews_batch_exact:
  "score_reviews exact_arith (constant_scorer (89 / 125)) example_batch
     = Inr [712 / 10, 689 / 10, 699 / 10]"
  by (simp add: example_batch_def review_with_text_def predict_def extract_features_def
        constant_scorer_def padded_text_props py_round_def round_half_even_def Let_def)

lemma verdict_exact_arithmetic:
  "mean_score exact_arith [712 / 10, 689 / 10, 699 / 10] = 70"
  "map_sum id verdict (analyze_reviews exact_arith (constant_scorer (89 / 125)) example_batch)
     = Inr ''suspicious''"
  by (simp_all add: analyze_reviews_def score_reviews_batch_exact verdict_summarize
        mean_score_def)



lemma score_reviews_Inr_iff:
  "(\<exists>scores. score_reviews ar sc reviews = Inr scores)
   \<longleftrightarrow> (\<forall>r \<in> set reviews. \<exists>t s. r_text r = Some t \<and> predict ar sc t = Inr s)"
proof (induction reviews)
  case Nil
  show ?case by simp
next
  case (Cons r reviews)
  show ?case
  proof (cases "r_text r")
    case None
    then show ?thesis by simp
  next
    case (Some t)
    show ?thesis
    proof (cases "predict ar sc t")
      case (Inl e)
      with Some show ?thesis by simp
    next
      case (Inr s)
      with Some Cons.IH show ?thesis by (cases "score_reviews ar sc reviews") auto
    qed
  qed
qed

lemma analyze_reviews_Inr_iff:
  "(\<exists>res. analyze_reviews ar sc reviews = Inr res)
   \<longleftrightarrow> (\<forall>r \<in> set reviews. \<exists>t s. r_text r = Some t \<and> predict ar sc t = Inr s)"
proof -
  have "(\<exists>res. analyze_reviews ar sc reviews = Inr res)
        \<longleftrightarrow> (\<exists>scores. score_reviews ar sc reviews = Inr scores)"
    by (cases "score_reviews ar sc reviews") (simp_all add: analyze_reviews_def)
  then show ?thesis by (simp add: score_reviews_Inr_iff)
qed

lemma preprocess_member:
  assumes "r \<in> set reviews" and "text_or_content r \<noteq> []"
  shows "r\<lparr>r_text := Some (strip (text_or_content r))\<rparr> \<in> set (preprocess_reviews reviews)"
  using assms by (induction reviews) (auto simp: Let_def)

lemma find_update_first:
  assumes "find p xs = Some a" and "p (f a)"
  shows "find p (update_first p f xs) = Some (f a)"
  using assms by (induction xs) (auto split: if_splits)

lemma failure_marks_failed:
  assumes "main ar loaded reviews = Failure e"
  shows "analyze_with_ai ar loaded reviews aid d =
           (update_analysis_status d aid ''failed'' None None (Some (AnalysisError e)) None, False)"
  using assms by (simp add: analyze_with_ai_def)

lemma failed_status_found:
  assumes "find (\<lambda>a. analysis_id a = aid) (analyses d) = Some a"
  shows "\<exists>a'. find (\<lambda>a. analysis_id a = aid)
               (analyses (update_analysis_status d aid ''failed'' None None (Some m) None)) = Some a'
           \<and> status a' = ''failed'' \<and> error_message a' = Some m"
proof -
  let ?f = "\<lambda>a. a\<lparr>status := ''failed'',
                   a_verdict := a_verdict a, a_confidence := a_confidence a,
                   error_message := Some m, review_count := review_count a\<rparr>"
  have "analysis_id a = aid" using assms by (auto dest: find_Some_iff[THEN iffD1])
  then have "find (\<lambda>a. analysis_id a = aid) (update_first (\<lambda>a. analysis_id a = aid) ?f (analyses d)) = Some (?f a)"
    using assms by (intro find_update_first) simp_all
  then show ?thesis by (simp add: update_analysis_status_def)
qed

lemma strip_size: "strip [49324, 51060, 51592] = [49324, 51060, 51592]"
  by (simp add: strip_def py_isspace_def)

lemma strip_x: "strip [120] = [120]"
  by (simp add: strip_def py_isspace_def)

lemma predict_good_steps:
  "fmul ieee_arith (binary64 (4 / 5)) 100 = 80"
  "fmul ieee_arith 80 (lit ieee_arith 0.85) = 68"
  "fmul ieee_arith 80 (lit ieee_arith 0.15) = 12"
  "fdiv ieee_arith 3 50 = 1080863910568919 / 18014398509481984"
  "fmul ieee_arith 12 (1080863910568919 / 18014398509481984)
     = 3242591731706757 / 4503599627370496"
  "fadd ieee_arith 68 (3242591731706757 / 4503599627370496)
     = 2417870049944535 / 35184372088832"
  "round_nd ieee_arith (2417870049944535 / 35184372088832) 1 = binary64 (687 / 10)"
  by (simp_all add: eval_fp)

lemma predict_good:
  "predict ieee_arith (failing_scorer [120] (binary64 (4 / 5))) 
     [49324, 51060, 51592] = Inr (binary64 (687 / 10))"
  by (rule predict_by_steps[OF _ _ _ _ _ predict_good_steps(1-3) _ predict_good_steps(5-7)])
     (simp_all add: predict_good_steps(4) size_is_product_keyword size_is_no_delivery_keyword failing_scorer_def)

lemma predict_bad:
  "predict ar (failing_scorer [120] p) [120] = Inl (BackendError ''embedding failed'')"
  by (simp add: predict_def extract_features_def failing_scorer_def)

lemma preprocess_two:
  "preprocess_reviews [review_with_text [49324, 51060, 51592], review_with_text [120]]
    = [review_with_text [49324, 51060, 51592], review_with_text [120]]"
  by (simp add: review_with_text_def text_or_content_def get_str_def strip_size strip_x)

text \<open>
  C4, as the code has it. \<open>analyze_reviews\<close> has no handler around the scoring of one
  review: when the scoring of any review of the batch raises, \<open>analyze_reviews\<close> raises,
  \<open>main\<close> reports the failure, and \<open>analyze_with_ai\<close> marks the analysis \<open>failed\<close> with the
  error; no review of the batch keeps a score. A batch result is produced exactly when
  every review of the batch is scored. None of this depends on the arithmetic.
\<close>

theorem scoring_error_fails_batch:
  assumes "r \<in> set reviews" and "text_or_content r \<noteq> []"
    and "predict ar sc (strip (text_or_content r)) = Inl e0"
  shows "\<exists>e. analyze_reviews ar sc (preprocess_reviews reviews) = Inl e
           \<and> main ar (Some sc) reviews = Failure e
           \<and> analyze_with_ai ar (Some sc) reviews aid d =
               (update_analysis_status d aid ''failed'' None None (Some (AnalysisError e)) None,
                False)
           \<and> (\<forall>a. find (\<lambda>a. analysis_id a = aid) (analyses d) = Some a \<longrightarrow>
                 (\<exists>a'. find (\<lambda>a. analysis_id a = aid)
                          (analyses (fst (analyze_with_ai ar (Some sc) reviews aid d))) = Some a'
                       \<and> status a' = ''failed''
                       \<and> error_message a' = Some (AnalysisError e)))
    \<and> ((\<exists>res. analyze_reviews ar sc batch = Inr res)
         \<longleftrightarrow> (\<forall>b \<in> set batch. \<exists>t s. r_text b = Some t \<and> predict ar sc t = Inr s))"
proof -
  let ?r = "r\<lparr>r_text := Some (strip (text_or_content r))\<rparr>"
  have mem: "?r \<in> set (preprocess_reviews reviews)" using assms(1,2) by (rule preprocess_member)
  have "\<not> (\<exists>t s. r_text ?r = Some t \<and> predict ar sc t = Inr s)" using assms(3) by simp
  with mem have "\<not> (\<exists>res. analyze_reviews ar sc (preprocess_reviews reviews) = Inr res)"
    unfolding analyze_reviews_Inr_iff by blast
  then obtain e where e: "analyze_reviews ar sc (preprocess_reviews reviews) = Inl e"
    by (cases "analyze_reviews ar sc (preprocess_reviews reviews)") auto
  have ne: "preprocess_reviews reviews \<noteq> []" using mem by auto
  have m: "main ar (Some sc) reviews = Failure e"
    using e ne by (simp add: main_def run_def Let_def)
  note w = failure_marks_failed[OF m, of aid d]
  have "\<forall>a. find (\<lambda>a. analysis_id a = aid) (analyses d) = Some a \<longrightarrow>
                 (\<exists>a'. find (\<lambda>a. analysis_id a = aid)
                          (analyses (fst (analyze_with_ai ar (Some sc) reviews aid d))) = Some a'
                       \<and> status a' = ''failed''
                       \<and> error_message a' = Some (AnalysisError e))"
    using failed_status_found[of aid d _ "AnalysisError e"] by (simp add: w)
  with e m w analyze_reviews_Inr_iff[of ar sc batch] show ?thesis by blast
qed

theorem scoring_error_fails_batch_witness:
  "review_with_text [120]
     \<in> set [review_with_text [49324, 51060, 51592], review_with_text [120]]
   \<and> text_or_content (review_with_text [120]) \<noteq> []
   \<and> predict ieee_arith (failing_scorer [120] (binary64 (4 / 5)))
         (strip (text_or_content (review_with_text [120])))
       = Inl (BackendError ''embedding failed'')
   \<and> (\<exists>e. main ieee_arith (Some (failing_scorer [120] (binary64 (4 / 5))))
              [review_with_text [49324, 51060, 51592], review_with_text [120]] = Failure e)
   \<and> (\<exists>a'. find (\<lambda>a. analysis_id a = 1)
              (analyses (fst (analyze_with_ai ieee_arith
                 (Some (failing_scorer [120] (binary64 (4 / 5))))
                 [review_with_text [49324, 51060, 51592], review_with_text [120]] 1
                 example_db))) = Some a'
           \<and> status a' = ''failed'')"
proof -
  let ?sc = "failing_scorer [120] (binary64 (4 / 5))"
  have t: "text_or_content (review_with_text [120]) = [120]"
    by (simp add: text_or_content_def review_with_text_def get_str_def)
  have m: "review_with_text [120]
     \<in> set [review_with_text [49324, 51060, 51592], review_with_text [120]]" by simp
  have n: "text_or_content (review_with_text [120]) \<noteq> []" by (simp add: t)
  have p: "predict ieee_arith ?sc (strip (text_or_content (review_with_text [120])))
       = Inl (BackendError ''embedding failed'')"
    by (simp add: t strip_x predict_bad)
  have f: "\<exists>a. find (\<lambda>a. analysis_id a = 1) (analyses example_db) = Some a"
    by (simp add: example_db_def)
  from scoring_error_fails_batch[OF m n p, of 1 example_db] f
  have "(\<exists>e. main ieee_arith (Some ?sc)
              [review_with_text [49324, 51060, 51592], review_with_text [120]] = Failure e)
     \<and> (\<exists>a'. find (\<lambda>a. analysis_id a = 1)
              (analyses (fst (analyze_with_ai ieee_arith (Some ?sc)
                 [review_with_text [49324, 51060, 51592], review_with_text [120]] 1
                 example_db))) = Some a'
           \<and> status a' = ''failed'')"
    by metis
  with m n p show ?thesis by blast
qed

text \<open>
  C4 as stated fails: in a batch of two reviews where the first is scored 68.7 and the
  scoring of the second raises, no batch result is produced; the run ends in the
  failure and the analysis is marked \<open>failed\<close>.
\<close>

theorem scoring_error_aborts_batch_counterexample:
  "predict ieee_arith (failing_scorer [120] (binary64 (4 / 5))) [49324, 51060, 51592]
       = Inr (binary64 (687 / 10))
   \<and> predict ieee_arith (failing_scorer [120] (binary64 (4 / 5))) [120]
       = Inl (BackendError ''embedding failed'')
   \<and> analyze_reviews ieee_arith (failing_scorer [120] (binary64 (4 / 5)))
        (preprocess_reviews [review_with_text [49324, 51060, 51592], review_with_text [120]])
       = Inl (BackendError ''embedding failed'')
   \<and> main ieee_arith (Some (failing_scorer [120] (binary64 (4 / 5))))
        [review_with_text [49324, 51060, 51592], review_with_text [120]]
       = Failure (BackendError ''embedding failed'')
   \<and> map status (analyses (fst (analyze_with_ai ieee_arith
        (Some (failing_scorer [120] (binary64 (4 / 5))))
        [review_with_text [49324, 51060, 51592], review_with_text [120]] 1 example_db)))
       = [''failed'']"
proof -
  let ?sc = "failing_scorer [120] (binary64 (4 / 5))"
  have a: "analyze_reviews ieee_arith ?sc
        (preprocess_reviews [review_with_text [49324, 51060, 51592], review_with_text [120]])
       = Inl (BackendError ''embedding failed'')"
    unfolding preprocess_two
    by (simp add: analyze_reviews_def review_with_text_def predict_good predict_bad)
  have m: "main ieee_arith (Some ?sc)
        [review_with_text [49324, 51060, 51592], review_with_text [120]]
       = Failure (BackendError ''embedding failed'')"
    using a unfolding preprocess_two
    by (simp add: main_def run_def Let_def preprocess_two del: preprocess_reviews.simps)
  have "map status (analyses (fst (analyze_with_ai ieee_arith (Some ?sc)
        [review_with_text [49324, 51060, 51592], review_with_text [120]] 1 example_db)))
       = [''failed'']"
    by (simp add: analyze_with_ai_def m update_analysis_status_def example_db_def)
  with a m predict_good predict_bad show ?thesis by simp
qed

section \<open>Properties of the feedback endpoint\<close>

lemma label_for_01:
  assumes "sat = 0 \<or> sat = 1" and "label_for s score avg sat = Some l"
  shows "l = 0 \<or> l = 1"
  using assms
  by (auto simp: label_for_def smart_label_hybrid_def smart_label_extreme_def
        smart_label_relative_def split: if_splits)

lemma label_for_other:
  assumes "s \<notin> {''weak'', ''hybrid'', ''extreme'', ''relative''}"
  shows "label_for s score avg sat = smart_label_hybrid score avg sat"
  using assms by (simp add: label_for_def)

lemma label_reviews_rows:
  assumes "sat = 0 \<or> sat = 1"
  shows "\<exists>st' rows. label_reviews rq avg sat rs st = Inr st'
           \<and> added st' = added st @ rows
           \<and> length rows \<le> length rs
           \<and> (\<forall>f \<in> set rows. fb_analysis_id f = rq_analysis_id rq
                              \<and> labeling_strategy f = rq_strategy rq)"
proof (induction rs arbitrary: st)
  case Nil
  show ?case by simp
next
  case (Cons r rs)
  show ?case
  proof (cases "content_or_text r = []")
    case True
    with Cons.IH[of st] show ?thesis by (auto simp: Let_def)
  next
    case False
    show ?thesis
    proof (cases "label_for (rq_strategy rq) (get_score r) avg sat")
      case None
      let ?st = "st\<lparr>skipped_count := skipped_count st + 1, label_bound := True\<rparr>"
      from Cons.IH[of ?st] obtain st' rows where
        "label_reviews rq avg sat rs ?st = Inr st'" "added st' = added ?st @ rows"
        "length rows \<le> length rs"
        "\<forall>f \<in> set rows. fb_analysis_id f = rq_analysis_id rq \<and> labeling_strategy f = rq_strategy rq"
        by blast
      with False None show ?thesis by (auto simp: Let_def)
    next
      case (Some l)
      let ?row = "\<lparr>fb_analysis_id = rq_analysis_id rq, review_text = content_or_text r,
                    fb_confidence = get_score r, tags = l, original_score = get_score r,
                    labeling_strategy = rq_strategy rq,
                    label_confidence = calculate_label_confidence (get_score r) l\<rparr>"
      from label_for_01[OF assms Some] have l: "l = 0 \<or> l = 1" .
      let ?st = "if l = 0 then st\<lparr>added := added st @ [?row], saved_count := saved_count st + 1,
                            stats_label_0 := stats_label_0 st + 1, label_bound := True\<rparr>
                 else st\<lparr>added := added st @ [?row], saved_count := saved_count st + 1,
                            stats_label_1 := stats_label_1 st + 1, label_bound := True\<rparr>"
      from Cons.IH[of ?st] obtain st' rows where
        a: "label_reviews rq avg sat rs ?st = Inr st'" and b: "added st' = added ?st @ rows"
        and c: "length rows \<le> length rs"
        and d: "\<forall>f \<in> set rows. fb_analysis_id f = rq_analysis_id rq \<and> labeling_strategy f = rq_strategy rq"
        by blast
      have e: "label_reviews rq avg sat (r # rs) st = Inr st'"
        using False Some l a by (auto simp: Let_def)
      have f: "added st' = added st @ (?row # rows)" using b by (auto split: if_splits)
      have g: "length (?row # rows) \<le> length (r # rs)" using c by simp
      have h: "\<forall>f \<in> set (?row # rows). fb_analysis_id f = rq_analysis_id rq \<and> labeling_strategy f = rq_strategy rq"
        using d by simp
      from e f g h show ?thesis by blast
    qed
  qed
qed

lemma submit_feedback_cases:
  obtains (not_found) "find (\<lambda>a. analysis_id a = rq_analysis_id rq) (analyses d) = None"
      "submit_feedback rq d = (d, Inl (HTTPException 404))"
  | (rejected) an where "find (\<lambda>a. analysis_id a = rq_analysis_id rq) (analyses d) = Some an"
      "status an \<noteq> ''completed'' \<or> top_reviews an @ worst_reviews an = []"
      "submit_feedback rq d = (d, Inl (HTTPException 400))"
  | (stored) an st rows where "find (\<lambda>a. analysis_id a = rq_analysis_id rq) (analyses d) = Some an"
      "status an = ''completed''" "top_reviews an @ worst_reviews an \<noteq> []"
      "label_reviews rq
         (sum_list (map get_score (top_reviews an @ worst_reviews an))
            / real (length (top_reviews an @ worst_reviews an)))
         (if rq_is_helpful rq then 1 else 0)
         (top_reviews an @ worst_reviews an) label_loop_init = Inr st"
      "added st = rows"
      "length rows \<le> length (top_reviews an @ worst_reviews an)"
      "\<forall>f \<in> set rows. fb_analysis_id f = rq_analysis_id rq
                         \<and> labeling_strategy f = rq_strategy rq"
      "fst (submit_feedback rq d) =
         d\<lparr>feedbacks := filter (\<lambda>f. fb_analysis_id f \<noteq> rq_analysis_id rq) (feedbacks d) @ rows\<rparr>"
proof (cases "find (\<lambda>a. analysis_id a = rq_analysis_id rq) (analyses d)")
  case None
  then show ?thesis using not_found by (simp add: submit_feedback_def)
next
  case (Some an)
  show ?thesis
  proof (cases "status an \<noteq> ''completed'' \<or> top_reviews an @ worst_reviews an = []")
    case True
    then have "submit_feedback rq d = (d, Inl (HTTPException 400))"
      using Some by (auto simp: submit_feedback_def Let_def)
    with Some True show ?thesis using rejected by blast
  next
    case False
    define all_reviews where "all_reviews = top_reviews an @ worst_reviews an"
    define avg where "avg = sum_list (map get_score all_reviews) / real (length all_reviews)"
    let ?sat = "if rq_is_helpful rq then 1 else (0::int)"
    have "?sat = 0 \<or> ?sat = 1" by simp
    from label_reviews_rows[OF this, of rq avg all_reviews label_loop_init]
    obtain st rows where l: "label_reviews rq avg ?sat all_reviews label_loop_init = Inr st"
      and a: "added st = rows" and n: "length rows \<le> length all_reviews"
      and f: "\<forall>f \<in> set rows. fb_analysis_id f = rq_analysis_id rq
                         \<and> labeling_strategy f = rq_strategy rq"
      by (auto simp: label_loop_init_def)
    have ne: "all_reviews \<noteq> []" "status an = ''completed''"
      using False by (auto simp: all_reviews_def)
    have "submit_feedback rq d =
            (let d' = d\<lparr>feedbacks := filter (\<lambda>f. fb_analysis_id f \<noteq> rq_analysis_id rq)
                                         (feedbacks d) @ added st\<rparr>
             in if \<not> label_bound st then (d', Inl (HTTPException 500))
                else (d', Inr \<lparr>success = True, feedback_count = saved_count st,
                              strategy_info =
                                \<lparr>si_strategy = rq_strategy rq,
                                 si_total_reviews = length all_reviews,
                                 si_saved = saved_count st, si_skipped = skipped_count st,
                                 si_label_0 = stats_label_0 st, si_label_1 = stats_label_1 st,
                                 si_average_score = avg\<rparr>\<rparr>))"
      unfolding submit_feedback_def Let_def
      using Some ne l by (simp add: all_reviews_def[symmetric] avg_def[symmetric])
    then have "fst (submit_feedback rq d) =
         d\<lparr>feedbacks := filter (\<lambda>f. fb_analysis_id f \<noteq> rq_analysis_id rq) (feedbacks d) @ rows\<rparr>"
      using a by (simp add: Let_def)
    with Some ne l a n f show ?thesis
      using stored[of an st rows] unfolding all_reviews_def avg_def by blast
  qed
qed

lemma submit_feedback_frame: "\<exists>X. fst (submit_feedback rq d) = d\<lparr>feedbacks := X\<rparr>"
proof (cases rq d rule: submit_feedback_cases)
  case not_found
  then have "fst (submit_feedback rq d) = d\<lparr>feedbacks := feedbacks d\<rparr>" by simp
  then show ?thesis by blast
next
  case (rejected an)
  then have "fst (submit_feedback rq d) = d\<lparr>feedbacks := feedbacks d\<rparr>" by simp
  then show ?thesis by blast
next
  case (stored an st rows)
  then show ?thesis by blast
qed

lemma submit_feedback_other_batch:
  assumes "other \<noteq> rq_analysis_id rq"
  shows "feedback_of other (fst (submit_feedback rq d)) = feedback_of other d"
proof (cases rq d rule: submit_feedback_cases)
  case not_found
  then show ?thesis by simp
next
  case (rejected an)
  then show ?thesis by simp
next
  case (stored an st rows)
  have "filter (\<lambda>f. fb_analysis_id f = other) rows = []"
    using stored(7) assms by (auto simp: filter_empty_conv)
  moreover have "filter (\<lambda>f. fb_analysis_id f = other)
          (filter (\<lambda>f. fb_analysis_id f \<noteq> rq_analysis_id rq) (feedbacks d))
        = filter (\<lambda>f. fb_analysis_id f = other) (feedbacks d)"
    using assms by (auto intro: filter_cong)
  ultimately show ?thesis by (simp add: feedback_of_def stored(8))
qed

lemma submit_feedback_replaces:
  assumes "find (\<lambda>a. analysis_id a = rq_analysis_id rq) (analyses d) = Some an"
    and "status an = ''completed''" and "top_reviews an @ worst_reviews an \<noteq> []"
  shows "feedback_of (rq_analysis_id rq) (fst (submit_feedback rq d))
           = feedbacks (fst (submit_feedback rq (d\<lparr>feedbacks := []\<rparr>)))
       \<and> length (feedback_of (rq_analysis_id rq) (fst (submit_feedback rq d)))
           \<le> length (top_reviews an @ worst_reviews an)
       \<and> (\<forall>f \<in> set (feedback_of (rq_analysis_id rq) (fst (submit_feedback rq d))).
             labeling_strategy f = rq_strategy rq)"
proof (cases rq d rule: submit_feedback_cases)
  case not_found
  with assms show ?thesis by simp
next
  case (rejected an')
  with assms show ?thesis by auto
next
  case (stored an' st rows)
  have an: "an' = an" using stored(1) assms(1) by simp
  have rows: "filter (\<lambda>f. fb_analysis_id f = rq_analysis_id rq) rows = rows"
    using stored(7) by (auto simp: filter_id_conv)
  have live: "feedback_of (rq_analysis_id rq) (fst (submit_feedback rq d)) = rows"
    by (simp add: feedback_of_def stored(8) rows)
  have "fst (submit_feedback rq (d\<lparr>feedbacks := []\<rparr>)) = d\<lparr>feedbacks := rows\<rparr>"
  proof (cases rq "d\<lparr>feedbacks := []\<rparr>" rule: submit_feedback_cases)
    case not_found
    with stored(1) show ?thesis by simp
  next
    case (rejected b)
    with stored(1-3) show ?thesis by auto
  next
    case stored2: (stored b st2 rows2)
    have "b = an'" using stored2(1) stored(1) by simp
    with stored2(4,5) stored(4,5) have "rows2 = rows" by simp
    with stored2(8) show ?thesis by simp
  qed
  with live stored(6,7) an show ?thesis by simp
qed

lemma submit_all_frame: "\<exists>X. submit_all requests d = d\<lparr>feedbacks := X\<rparr>"
proof (induction requests arbitrary: d)
  case Nil
  have "d = d\<lparr>feedbacks := feedbacks d\<rparr>" by simp
  then show ?case by (metis submit_all.simps(1))
next
  case (Cons rq requests)
  from submit_feedback_frame[of rq d] obtain X where x: "fst (submit_feedback rq d) = d\<lparr>feedbacks := X\<rparr>"
    by blast
  from Cons.IH[of "d\<lparr>feedbacks := X\<rparr>"] obtain Y where "submit_all requests (d\<lparr>feedbacks := X\<rparr>) = d\<lparr>feedbacks := X\<rparr>\<lparr>feedbacks := Y\<rparr>"
    by blast
  with x have "submit_all (rq # requests) d = d\<lparr>feedbacks := Y\<rparr>" by simp
  then show ?case by blast
qed

lemma submit_all_other_batch:
  assumes "\<forall>rq \<in> set requests. rq_analysis_id rq = aid" and "other \<noteq> aid"
  shows "feedback_of other (submit_all requests d) = feedback_of other d"
  using assms
proof (induction requests arbitrary: d)
  case Nil
  show ?case by simp
next
  case (Cons rq requests)
  then show ?case by (simp add: submit_feedback_other_batch)
qed

lemma submit_all_last:
  assumes "requests \<noteq> []" and "\<forall>rq \<in> set requests. rq_analysis_id rq = aid"
    and "find (\<lambda>a. analysis_id a = aid) (analyses d) = Some an"
    and "status an = ''completed''" and "top_reviews an @ worst_reviews an \<noteq> []"
  shows "feedback_of aid (submit_all requests d)
           = feedbacks (fst (submit_feedback (last requests) (d\<lparr>feedbacks := []\<rparr>)))"
  using assms
proof (induction requests arbitrary: d)
  case Nil
  then show ?case by simp
next
  case (Cons rq requests)
  from submit_feedback_frame[of rq d] obtain X where x: "fst (submit_feedback rq d) = d\<lparr>feedbacks := X\<rparr>"
    by blast
  show ?case
  proof (cases "requests = []")
    case True
    have "rq_analysis_id rq = aid" using Cons.prems(2) by simp
    with submit_feedback_replaces[of rq d an] Cons.prems(3-5) True show ?thesis by simp
  next
    case False
    have "feedback_of aid (submit_all requests (d\<lparr>feedbacks := X\<rparr>))
           = feedbacks (fst (submit_feedback (last requests) (d\<lparr>feedbacks := X\<rparr>\<lparr>feedbacks := []\<rparr>)))"
      using Cons.prems False by (intro Cons.IH) simp_all
    with x False show ?thesis by simp
  qed
qed

lemma label_reviews_other_strategy:
  assumes "rq_strategy rq \<notin> {''weak'', ''hybrid'', ''extreme'', ''relative''}"
  shows "label_reviews rq avg sat rs (restamp (rq_strategy rq) st)
           = map_sum id (restamp (rq_strategy rq))
               (label_reviews (rq\<lparr>rq_strategy := ''hybrid''\<rparr>) avg sat rs st)"
proof (induction rs arbitrary: st)
  case Nil
  show ?case by simp
next
  case (Cons r rs)
  have lf: "label_for (rq_strategy rq) (get_score r) avg sat
              = label_for ''hybrid'' (get_score r) avg sat"
    using assms by (simp add: label_for_def)
  show ?case
  proof (cases "content_or_text r = []")
    case True
    with Cons.IH[of st] show ?thesis by (simp add: Let_def)
  next
    case False
    show ?thesis
    proof (cases "label_for ''hybrid'' (get_score r) avg sat")
      case None
      let ?st = "st\<lparr>skipped_count := skipped_count st + 1, label_bound := True\<rparr>"
      have "restamp (rq_strategy rq) ?st
             = (restamp (rq_strategy rq) st)\<lparr>skipped_count :=
                  skipped_count (restamp (rq_strategy rq) st) + 1, label_bound := True\<rparr>"
        by (simp add: restamp_def)
      with Cons.IH[of ?st] False None lf show ?thesis by (simp add: Let_def)
    next
      case (Some l)
      let ?row = "\<lambda>s. \<lparr>fb_analysis_id = rq_analysis_id rq, review_text = content_or_text r,
                    fb_confidence = get_score r, tags = l, original_score = get_score r,
                    labeling_strategy = s,
                    label_confidence = calculate_label_confidence (get_score r) l\<rparr>"
      let ?st0 = "st\<lparr>added := added st @ [?row ''hybrid''], saved_count := saved_count st + 1,
                            stats_label_0 := stats_label_0 st + 1, label_bound := True\<rparr>"
      let ?st1 = "st\<lparr>added := added st @ [?row ''hybrid''], saved_count := saved_count st + 1,
                            stats_label_1 := stats_label_1 st + 1, label_bound := True\<rparr>"
      let ?rs = "restamp (rq_strategy rq) st"
      have r0: "restamp (rq_strategy rq) ?st0
             = ?rs\<lparr>added := added ?rs @ [?row (rq_strategy rq)], saved_count := saved_count ?rs + 1,
                            stats_label_0 := stats_label_0 ?rs + 1, label_bound := True\<rparr>"
        by (simp add: restamp_def)
      have r1: "restamp (rq_strategy rq) ?st1
             = ?rs\<lparr>added := added ?rs @ [?row (rq_strategy rq)], saved_count := saved_count ?rs + 1,
                            stats_label_1 := stats_label_1 ?rs + 1, label_bound := True\<rparr>"
        by (simp add: restamp_def)
      show ?thesis
      proof (cases "l = 0")
        case True
        with Cons.IH[of ?st0] r0 False Some lf show ?thesis by (simp add: Let_def)
      next
        case n0: False
        show ?thesis
        proof (cases "l = 1")
          case True
          with Cons.IH[of ?st1] r1 False Some lf show ?thesis by (simp add: Let_def)
        next
          case False
          with n0 \<open>content_or_text r \<noteq> []\<close> Some lf show ?thesis by (simp add: Let_def)
        qed
      qed
    qed
  qed
qed

lemma submit_feedback_stored:
  assumes "find (\<lambda>a. analysis_id a = rq_analysis_id rq) (analyses d) = Some an"
    and "status an = ''completed''"
    and "all_reviews = top_reviews an @ worst_reviews an" and "all_reviews \<noteq> []"
    and "avg = sum_list (map get_score all_reviews) / real (length all_reviews)"
    and "label_reviews rq avg (if rq_is_helpful rq then 1 else 0) all_reviews label_loop_init
           = Inr st"
  shows "submit_feedback rq d =
           (d\<lparr>feedbacks := filter (\<lambda>f. fb_analysis_id f \<noteq> rq_analysis_id rq) (feedbacks d)
                               @ added st\<rparr>,
            if \<not> label_bound st then Inl (HTTPException 500)
            else Inr \<lparr>success = True, feedback_count = saved_count st,
                      strategy_info =
                        \<lparr>si_strategy = rq_strategy rq,
                         si_total_reviews = length all_reviews,
                         si_saved = saved_count st, si_skipped = skipped_count st,
                         si_label_0 = stats_label_0 st, si_label_1 = stats_label_1 st,
                         si_average_score = avg\<rparr>\<rparr>)"
  unfolding submit_feedback_def Let_def
  using assms(1,2,4,6) by (simp add: assms(3)[symmetric] assms(5)[symmetric])

lemmas eval_feedback = submit_feedback_def feedback_db_def scored_review_def label_loop_init_def
  content_or_text_def get_str_def get_score_def label_for_def smart_label_hybrid_def
  smart_label_extreme_def smart_label_relative_def calculate_label_confidence_def Let_def
  request_def feedback_of_def

text \<open>
  C6. Let every request of a non-empty sequence of submissions name the same batch,
  whose analysis is completed and has reviews. After the whole sequence, the stored
  feedback rows of the batch are exactly the rows that the last submission alone
  produces on an empty feedback table: nothing of an earlier submission (or of the rows
  stored before) is left. They are at most one row per review, all stamped with the
  strategy of the last request, and the rows of every other batch are untouched.
  Deletion and insertion belong to one commit; in the model they are one step.
\<close>

theorem resubmission_replaces_feedback:
  assumes "requests \<noteq> []" and "\<forall>rq \<in> set requests. rq_analysis_id rq = aid"
    and "find (\<lambda>a. analysis_id a = aid) (analyses d) = Some an"
    and "status an = ''completed''" and "top_reviews an @ worst_reviews an \<noteq> []"
  shows "feedback_of aid (submit_all requests d)
           = feedbacks (fst (submit_feedback (last requests) (d\<lparr>feedbacks := []\<rparr>)))
     \<and> length (feedback_of aid (submit_all requests d))
           \<le> length (top_reviews an @ worst_reviews an)
     \<and> (\<forall>f \<in> set (feedback_of aid (submit_all requests d)).
           labeling_strategy f = rq_strategy (last requests))
     \<and> (\<forall>other. other \<noteq> aid \<longrightarrow>
           feedback_of other (submit_all requests d) = feedback_of other d)"
proof -
  let ?d0 = "d\<lparr>feedbacks := []\<rparr>"
  let ?rq = "last requests"
  have aid: "rq_analysis_id ?rq = aid" using assms(1,2) by simp
  have live: "feedback_of aid (submit_all requests d) = feedbacks (fst (submit_feedback ?rq ?d0))"
    using assms by (rule submit_all_last)
  have f0: "find (\<lambda>a. analysis_id a = rq_analysis_id ?rq) (analyses ?d0) = Some an"
    using assms(3) aid by simp
  note rep = submit_feedback_replaces[OF f0 assms(4,5), unfolded aid]
  have r: "feedback_of aid (fst (submit_feedback ?rq ?d0)) = feedbacks (fst (submit_feedback ?rq ?d0))"
    "length (feedback_of aid (fst (submit_feedback ?rq ?d0))) \<le> length (top_reviews an @ worst_reviews an)"
    "\<forall>f \<in> set (feedback_of aid (fst (submit_feedback ?rq ?d0))). labeling_strategy f = rq_strategy ?rq"
  proof -
    have "d\<lparr>feedbacks := [], feedbacks := []\<rparr> = d\<lparr>feedbacks := []\<rparr>" by simp
    with rep show
      "feedback_of aid (fst (submit_feedback ?rq ?d0)) = feedbacks (fst (submit_feedback ?rq ?d0))"
      "length (feedback_of aid (fst (submit_feedback ?rq ?d0))) \<le> length (top_reviews an @ worst_reviews an)"
      "\<forall>f \<in> set (feedback_of aid (fst (submit_feedback ?rq ?d0))). labeling_strategy f = rq_strategy ?rq"
      by metis+
  qed
  have other: "\<forall>other. other \<noteq> aid \<longrightarrow>
           feedback_of other (submit_all requests d) = feedback_of other d"
    using submit_all_other_batch[OF assms(2)] by blast
  from live r other show ?thesis by metis
qed

theorem resubmission_replaces_feedback_witness:
  "[request 7 True ''hybrid'', request 7 False ''extreme''] \<noteq> []
   \<and> rq_analysis_id (request 7 True ''hybrid'') = 7
   \<and> rq_analysis_id (request 7 False ''extreme'') = 7
   \<and> map tags (feedbacks (fst (submit_feedback (request 7 True ''hybrid'') feedback_db)))
       = [1, 0, 0]
   \<and> map tags (feedback_of 7
         (submit_all [request 7 True ''hybrid'', request 7 False ''extreme''] feedback_db))
       = [1, 0]
   \<and> map labeling_strategy (feedback_of 7
         (submit_all [request 7 True ''hybrid'', request 7 False ''extreme''] feedback_db))
       = [''extreme'', ''extreme'']"
proof -
  let ?rqs = "[request 7 True ''hybrid'', request 7 False ''extreme'']"
  let ?an = "\<lparr>analysis_id = 7, status = ''completed'', a_verdict = Some ''suspicious'',
              a_confidence = Some 50, error_message = None, review_count = Some 3,
              top_reviews = [scored_review [97] 90, scored_review [98] 10],
              worst_reviews = [scored_review [99] 50]\<rparr>"
  have h1: "?rqs \<noteq> []" by simp
  have h2: "\<forall>rq \<in> set ?rqs. rq_analysis_id rq = 7" by (simp add: request_def)
  have h3: "find (\<lambda>a. analysis_id a = 7) (analyses feedback_db) = Some ?an"
    by (simp add: feedback_db_def)
  have h4: "status ?an = ''completed''" by simp
  have h5: "top_reviews ?an @ worst_reviews ?an \<noteq> []" by simp
  from resubmission_replaces_feedback[OF h1 h2 h3 h4 h5]
  have "feedback_of 7 (submit_all ?rqs feedback_db)
          = feedbacks (fst (submit_feedback (request 7 False ''extreme'')
                              (feedback_db\<lparr>feedbacks := []\<rparr>)))"
    by simp
  moreover have "map tags (feedbacks (fst (submit_feedback (request 7 False ''extreme'')
                              (feedback_db\<lparr>feedbacks := []\<rparr>)))) = [1, 0]
     \<and> map labeling_strategy (feedbacks (fst (submit_feedback (request 7 False ''extreme'')
                              (feedback_db\<lparr>feedbacks := []\<rparr>)))) = [''extreme'', ''extreme'']"
    by (simp add: eval_feedback)
  moreover have "map tags (feedbacks (fst (submit_feedback (request 7 True ''hybrid'')
                   feedback_db))) = [1, 0, 0]"
    by (simp add: eval_feedback)
  ultimately show ?thesis using h1 by (simp add: request_def)
qed

text \<open>
  C10. A request whose strategy is none of \<open>weak\<close>, \<open>hybrid\<close>, \<open>extreme\<close>, \<open>relative\<close> is
  labelled by \<open>smart_label_hybrid\<close>: the texts and labels stored afterwards are those
  of the same request with the strategy \<open>hybrid\<close>, and so is the answer (the same HTTP
  error, or the same response up to the strategy name it echoes). The strategy name
  itself causes no error. The stored rows keep the given name in \<open>labeling_strategy\<close>.
\<close>

theorem unknown_strategy_is_hybrid:
  assumes "rq_strategy rq \<notin> {''weak'', ''hybrid'', ''extreme'', ''relative''}"
  shows "label_for (rq_strategy rq) score avg sat = smart_label_hybrid score avg sat
    \<and> map (\<lambda>f. (review_text f, tags f)) (feedbacks (fst (submit_feedback rq d)))
        = map (\<lambda>f. (review_text f, tags f))
            (feedbacks (fst (submit_feedback (rq\<lparr>rq_strategy := ''hybrid''\<rparr>) d)))
    \<and> map_sum id (\<lambda>r. r\<lparr>strategy_info := (strategy_info r)\<lparr>si_strategy := ''hybrid''\<rparr>\<rparr>)
          (snd (submit_feedback rq d))
        = snd (submit_feedback (rq\<lparr>rq_strategy := ''hybrid''\<rparr>) d)"
proof -
  let ?h = "rq\<lparr>rq_strategy := ''hybrid''\<rparr>"
  let ?P = "map (\<lambda>f. (review_text f, tags f)) (feedbacks (fst (submit_feedback rq d)))
        = map (\<lambda>f. (review_text f, tags f)) (feedbacks (fst (submit_feedback ?h d)))
    \<and> map_sum id (\<lambda>r. r\<lparr>strategy_info := (strategy_info r)\<lparr>si_strategy := ''hybrid''\<rparr>\<rparr>)
          (snd (submit_feedback rq d))
        = snd (submit_feedback ?h d)"
  have lab: "label_for (rq_strategy rq) score avg sat = smart_label_hybrid score avg sat"
    using assms by (rule label_for_other)
  have ?P
  proof (cases "find (\<lambda>a. analysis_id a = rq_analysis_id rq) (analyses d)")
    case None
    then show ?thesis by (simp add: submit_feedback_def)
  next
    case (Some an)
    define all_reviews where "all_reviews = top_reviews an @ worst_reviews an"
    define av where "av = sum_list (map get_score all_reviews) / real (length all_reviews)"
    show ?thesis
    proof (cases "status an = ''completed'' \<and> all_reviews \<noteq> []")
      case False
      then show ?thesis using Some
        by (auto simp: submit_feedback_def Let_def all_reviews_def)
    next
      case True
      let ?sat = "if rq_is_helpful rq then 1 else (0::int)"
      have "?sat = 0 \<or> ?sat = 1" by simp
      from label_reviews_rows[OF this, of ?h av all_reviews label_loop_init]
      obtain sth where h: "label_reviews ?h av ?sat all_reviews label_loop_init = Inr sth"
        by blast
      have i: "restamp (rq_strategy rq) label_loop_init = label_loop_init"
        by (simp add: restamp_def label_loop_init_def)
      have r: "label_reviews rq av ?sat all_reviews label_loop_init
                 = Inr (restamp (rq_strategy rq) sth)"
        using label_reviews_other_strategy[OF assms, of av ?sat all_reviews label_loop_init] h i
        by simp
      have fh: "find (\<lambda>a. analysis_id a = rq_analysis_id ?h) (analyses d) = Some an"
        using Some by simp
      have hh: "label_reviews ?h av (if rq_is_helpful ?h then 1 else 0) all_reviews
                  label_loop_init = Inr sth"
        using h by simp
      note a = submit_feedback_stored[OF Some _ all_reviews_def _ av_def r]
      note b = submit_feedback_stored[OF fh _ all_reviews_def _ av_def hh]
      show ?thesis using True by (simp add: a b restamp_def comp_def)
    qed
  qed
  with lab show ?thesis by simp
qed

theorem unknown_strategy_is_hybrid_witness:
  "rq_strategy (request 7 True ''bogus'') \<notin> {''weak'', ''hybrid'', ''extreme'', ''relative''}
   \<and> map (\<lambda>f. (review_text f, tags f))
         (feedbacks (fst (submit_feedback (request 7 True ''bogus'') feedback_db)))
       = [([97], 1), ([98], 0), ([99], 0)]
   \<and> map labeling_strategy
         (feedbacks (fst (submit_feedback (request 7 True ''bogus'') feedback_db)))
       = [''bogus'', ''bogus'', ''bogus'']"
proof -
  have h: "rq_strategy (request 7 True ''bogus'') \<notin> {''weak'', ''hybrid'', ''extreme'', ''relative''}"
    by (simp add: request_def)
  have e: "(request 7 True ''bogus'')\<lparr>rq_strategy := ''hybrid''\<rparr> = request 7 True ''hybrid''"
    by (simp add: request_def)
  from unknown_strategy_is_hybrid[OF h, of 0 0 0 feedback_db]
  have "map (\<lambda>f. (review_text f, tags f))
         (feedbacks (fst (submit_feedback (request 7 True ''bogus'') feedback_db)))
       = map (\<lambda>f. (review_text f, tags f))
         (feedbacks (fst (submit_feedback (request 7 True ''hybrid'') feedback_db)))"
    unfolding e by blast
  moreover have "map (\<lambda>f. (review_text f, tags f))
         (feedbacks (fst (submit_feedback (request 7 True ''hybrid'') feedback_db)))
       = [([97], 1), ([98], 0), ([99], 0)]"
    by (simp add: eval_feedback)
  moreover have "map labeling_strategy
         (feedbacks (fst (submit_feedback (request 7 True ''bogus'') feedback_db)))
       = [''bogus'', ''bogus'', ''bogus'']"
    by (simp add: eval_feedback)
  ultimately show ?thesis using h by simp
qed

section \<open>Properties of retraining\<close>

lemma find_update_first_other:
  assumes "\<And>x. q x \<Longrightarrow> \<not> p x \<and> \<not> p (f x)"
  shows "find p (update_first q f xs) = find p xs"
  using assms by (induction xs) auto

lemma set_job_frame [simp]:
  "models (set_job jid f d) = models d" "feedbacks (set_job jid f d) = feedbacks d"
  "analyses (set_job jid f d) = analyses d"
  by (simp_all add: set_job_def)

lemma fail_job_frame [simp]:
  "models (fail_job jid m d) = models d" "feedbacks (fail_job jid m d) = feedbacks d"
  "analyses (fail_job jid m d) = analyses d"
  by (simp_all add: fail_job_def)

lemma find_job_set_job_same:
  assumes "find (\<lambda>j. job_id j = jid) (jobs d) = Some j" and "job_id (f j) = jid"
  shows "find (\<lambda>j. job_id j = jid) (jobs (set_job jid f d)) = Some (f j)"
  using assms by (simp add: set_job_def find_update_first)

lemma find_job_set_job_other:
  assumes "a \<noteq> jid" and "\<And>j. job_id (f j) = job_id j"
  shows "find (\<lambda>j. job_id j = a) (jobs (set_job jid f d)) = find (\<lambda>j. job_id j = a) (jobs d)"
proof -
  have "find (\<lambda>j. job_id j = a) (update_first (\<lambda>j. job_id j = jid) f (jobs d))
          = find (\<lambda>j. job_id j = a) (jobs d)"
    using assms by (intro find_update_first_other) auto
  then show ?thesis by (simp add: set_job_def)
qed

lemma find_job_fail_job_same:
  assumes "find (\<lambda>j. job_id j = jid) (jobs d) = Some j"
  shows "\<exists>j'. find (\<lambda>j. job_id j = jid) (jobs (fail_job jid m d)) = Some j'
           \<and> job_status j' = ''failed'' \<and> job_error_message j' = Some m"
proof -
  have "job_id j = jid" using assms by (auto dest: find_Some_iff[THEN iffD1])
  then show ?thesis unfolding fail_job_def
    using find_job_set_job_same[OF assms, of "\<lambda>j. j\<lparr>job_status := ''failed'', job_error_message := Some m\<rparr>"]
    by simp
qed

lemma find_job_fail_job_other:
  assumes "a \<noteq> jid"
  shows "find (\<lambda>j. job_id j = a) (jobs (fail_job jid m d)) = find (\<lambda>j. job_id j = a) (jobs d)"
  unfolding fail_job_def using assms by (intro find_job_set_job_other) simp_all

lemma load_feedback_data_cong:
  "feedbacks d' = feedbacks d \<Longrightarrow> load_feedback_data d' = load_feedback_data d"
  by (simp add: load_feedback_data_def)

lemma combine_data_Inr_nonempty:
  "combine_data o_df f_df = Inr df \<Longrightarrow> df \<noteq> []"
  by (auto simp: combine_data_def Let_def with_source_def split: option.splits if_splits)

lemma combine_data_Inl: "combine_data o_df f_df = Inl e \<Longrightarrow> e = ValueError"
  by (auto simp: combine_data_def Let_def split: option.splits if_splits)

lemma train_frame:
  "models (fst (train_random_forest env jid d)) = models d
   \<and> feedbacks (fst (train_random_forest env jid d)) = feedbacks d
   \<and> analyses (fst (train_random_forest env jid d)) = analyses d"
  by (auto simp: train_random_forest_def Let_def split: option.splits sum.splits prod.splits)

lemma train_find_other:
  assumes "a \<noteq> jid"
  shows "find (\<lambda>j. job_id j = a) (jobs (fst (train_random_forest env jid d)))
           = find (\<lambda>j. job_id j = a) (jobs d)"
  using assms
  by (auto simp: train_random_forest_def Let_def find_job_fail_job_other find_job_set_job_other
        split: option.splits sum.splits prod.splits)

lemma train_gates_fail:
  assumes "find (\<lambda>j. job_id j = jid) (jobs d) = Some job"
    and "spec_gates_fail (merged_dataset env d)"
  shows "train_random_forest env jid d =
           (fail_job jid (gate_reason (merged_dataset env d))
              (set_job jid (\<lambda>j. j\<lparr>job_status := ''running''\<rparr>) d),
            TrainFailure (gate_reason (merged_dataset env d)))"
proof -
  let ?d1 = "set_job jid (\<lambda>j. j\<lparr>job_status := ''running''\<rparr>) d"
  have lf: "load_feedback_data ?d1 = load_feedback_data d"
    by (rule load_feedback_data_cong) simp
  show ?thesis
  proof (cases "combine_data (original_data env) (load_feedback_data d)")
    case (Inl e)
    then have "e = ValueError" by (rule combine_data_Inl)
    with Inl assms(1) lf show ?thesis
      by (simp add: train_random_forest_def Let_def merged_dataset_def gate_reason_def)
  next
    case (Inr df)
    then have ne: "df \<noteq> []" by (rule combine_data_Inr_nonempty)
    have m: "merged_dataset env d = df" using Inr by (simp add: merged_dataset_def)
    from assms(2) have g: "length df < 100 \<or> count_label 1 df < 5 \<or> count_label 0 df < 5"
      by (simp add: m spec_gates_fail_def)
    show ?thesis using Inr assms(1) lf ne g
      by (auto simp: train_random_forest_def Let_def m gate_reason_def count_label_def)
  qed
qed

lemma process_jobs_models:
  assumes "spec_gates_fail (merged_dataset env d)"
  shows "models (process_jobs env pending d) = models d
         \<and> feedbacks (process_jobs env pending d) = feedbacks d"
  using assms
proof (induction pending arbitrary: d)
  case Nil
  show ?case by simp
next
  case (Cons job pending)
  have md: "merged_dataset env d' = merged_dataset env d" if "feedbacks d' = feedbacks d" for d'
    using that by (simp add: merged_dataset_def load_feedback_data_def)
  show ?case
  proof (cases "find active (models d)")
    case None
    let ?d' = "fail_job (job_id job) NoActiveModel d"
    have "spec_gates_fail (merged_dataset env ?d')" using Cons.prems md[of ?d'] by simp
    from Cons.IH[OF this] None show ?thesis by simp
  next
    case (Some current_model)
    obtain d' res where t: "train_random_forest env (job_id job) d = (d', res)"
      by (cases "train_random_forest env (job_id job) d")
    have fr: "models d' = models d" "feedbacks d' = feedbacks d"
      using train_frame[of env "job_id job" d] t by simp_all
    have fail: "\<exists>err. res = TrainFailure err"
    proof (cases "find (\<lambda>j. job_id j = job_id job) (jobs d)")
      case None
      with t show ?thesis by (auto simp: train_random_forest_def)
    next
      case (Some j)
      from train_gates_fail[OF Some Cons.prems] t show ?thesis by simp
    qed
    then obtain err where res: "res = TrainFailure err" by blast
    have "spec_gates_fail (merged_dataset env d')" using Cons.prems md[OF fr(2)] by simp
    from Cons.IH[OF this] Some t res fr show ?thesis by simp
  qed
qed

lemma check_and_process_jobs_models:
  assumes "spec_gates_fail (merged_dataset env d)"
  shows "models (check_and_process_jobs env d) = models d"
  using process_jobs_models[OF assms] by (simp add: check_and_process_jobs_def Let_def)

lemma process_jobs_find_other:
  assumes "spec_gates_fail (merged_dataset env d)" and "a \<notin> job_id ` set pending"
  shows "find (\<lambda>j. job_id j = a) (jobs (process_jobs env pending d))
           = find (\<lambda>j. job_id j = a) (jobs d)"
  using assms
proof (induction pending arbitrary: d)
  case Nil
  show ?case by simp
next
  case (Cons job pending)
  have md: "merged_dataset env d' = merged_dataset env d" if "feedbacks d' = feedbacks d" for d'
    using that by (simp add: merged_dataset_def load_feedback_data_def)
  have a: "a \<noteq> job_id job" "a \<notin> job_id ` set pending" using Cons.prems(2) by auto
  show ?case
  proof (cases "find active (models d)")
    case None
    let ?d' = "fail_job (job_id job) NoActiveModel d"
    have "spec_gates_fail (merged_dataset env ?d')" using Cons.prems(1) md[of ?d'] by simp
    from Cons.IH[OF this a(2)] None a(1) show ?thesis by (simp add: find_job_fail_job_other)
  next
    case (Some current_model)
    obtain d' res where t: "train_random_forest env (job_id job) d = (d', res)"
      by (cases "train_random_forest env (job_id job) d")
    have fr: "models d' = models d" "feedbacks d' = feedbacks d"
      using train_frame[of env "job_id job" d] t by simp_all
    have fo: "find (\<lambda>j. job_id j = a) (jobs d') = find (\<lambda>j. job_id j = a) (jobs d)"
      using train_find_other[OF a(1), of env d] t by simp
    have fail: "\<exists>err. res = TrainFailure err"
    proof (cases "find (\<lambda>j. job_id j = job_id job) (jobs d)")
      case None
      with t show ?thesis by (auto simp: train_random_forest_def)
    next
      case (Some j)
      from train_gates_fail[OF Some Cons.prems(1)] t show ?thesis by simp
    qed
    then obtain err where res: "res = TrainFailure err" by blast
    have "spec_gates_fail (merged_dataset env d')" using Cons.prems(1) md[OF fr(2)] by simp
    from Cons.IH[OF this a(2)] Some t res fo show ?thesis by simp
  qed
qed

lemma process_jobs_failed:
  assumes "spec_gates_fail (merged_dataset env d)" and "distinct (map job_id pending)"
    and "job \<in> set pending"
    and "find (\<lambda>j. job_id j = job_id job) (jobs d) \<noteq> None"
  shows "\<exists>j'. find (\<lambda>j. job_id j = job_id job) (jobs (process_jobs env pending d)) = Some j'
           \<and> job_status j' = ''failed''
           \<and> job_error_message j' \<in> {Some (gate_reason (merged_dataset env d)), Some NoActiveModel}"
  using assms
proof (induction pending arbitrary: d)
  case Nil
  then show ?case by simp
next
  case (Cons p pending)
  have md: "merged_dataset env d' = merged_dataset env d" if "feedbacks d' = feedbacks d" for d'
    using that by (simp add: merged_dataset_def load_feedback_data_def)
  have dist: "distinct (map job_id pending)" "job_id p \<notin> job_id ` set pending"
    using Cons.prems(2) by auto
  \<comment> \<open>the database after the first job, and what it did to that job\<close>
  have step: "\<exists>d'. process_jobs env (p # pending) d = process_jobs env pending d'
       \<and> feedbacks d' = feedbacks d
       \<and> (\<forall>a. a \<noteq> job_id p \<longrightarrow>
              find (\<lambda>j. job_id j = a) (jobs d') = find (\<lambda>j. job_id j = a) (jobs d))
       \<and> (find (\<lambda>j. job_id j = job_id p) (jobs d) \<noteq> None \<longrightarrow>
            (\<exists>j'. find (\<lambda>j. job_id j = job_id p) (jobs d') = Some j'
               \<and> job_status j' = ''failed''
               \<and> job_error_message j' \<in> {Some (gate_reason (merged_dataset env d)),
                                           Some NoActiveModel}))"
  proof (cases "find active (models d)")
    case None
    let ?d' = "fail_job (job_id p) NoActiveModel d"
    have "process_jobs env (p # pending) d = process_jobs env pending ?d'" using None by simp
    moreover have "feedbacks ?d' = feedbacks d" by simp
    moreover have "\<forall>a. a \<noteq> job_id p \<longrightarrow>
              find (\<lambda>j. job_id j = a) (jobs ?d') = find (\<lambda>j. job_id j = a) (jobs d)"
      by (simp add: find_job_fail_job_other)
    moreover have "find (\<lambda>j. job_id j = job_id p) (jobs d) \<noteq> None \<longrightarrow>
            (\<exists>j'. find (\<lambda>j. job_id j = job_id p) (jobs ?d') = Some j'
               \<and> job_status j' = ''failed''
               \<and> job_error_message j' \<in> {Some (gate_reason (merged_dataset env d)),
                                           Some NoActiveModel})"
      using find_job_fail_job_same[of "job_id p" d _ NoActiveModel] by auto
    ultimately show ?thesis by blast
  next
    case (Some current_model)
    obtain d' res where t: "train_random_forest env (job_id p) d = (d', res)"
      by (cases "train_random_forest env (job_id p) d")
    have fr: "feedbacks d' = feedbacks d"
      using train_frame[of env "job_id p" d] t by simp
    have fo: "\<forall>a. a \<noteq> job_id p \<longrightarrow>
              find (\<lambda>j. job_id j = a) (jobs d') = find (\<lambda>j. job_id j = a) (jobs d)"
      using train_find_other[of _ "job_id p" env d] t by simp
    have fail: "\<exists>err. res = TrainFailure err"
    proof (cases "find (\<lambda>j. job_id j = job_id p) (jobs d)")
      case None
      with t show ?thesis by (auto simp: train_random_forest_def)
    next
      case (Some j)
      from train_gates_fail[OF Some Cons.prems(1)] t show ?thesis by simp
    qed
    then obtain err where res: "res = TrainFailure err" by blast
    have pj: "process_jobs env (p # pending) d = process_jobs env pending d'"
      using Some t res by simp
    have same: "find (\<lambda>j. job_id j = job_id p) (jobs d) \<noteq> None \<longrightarrow>
            (\<exists>j'. find (\<lambda>j. job_id j = job_id p) (jobs d') = Some j'
               \<and> job_status j' = ''failed''
               \<and> job_error_message j' \<in> {Some (gate_reason (merged_dataset env d)),
                                           Some NoActiveModel})"
    proof
      assume "find (\<lambda>j. job_id j = job_id p) (jobs d) \<noteq> None"
      then obtain j where j: "find (\<lambda>j. job_id j = job_id p) (jobs d) = Some j" by blast
      have jid: "job_id j = job_id p" using j by (auto dest: find_Some_iff[THEN iffD1])
      let ?d1 = "set_job (job_id p) (\<lambda>j. j\<lparr>job_status := ''running''\<rparr>) d"
      have "find (\<lambda>j. job_id j = job_id p) (jobs ?d1) = Some (j\<lparr>job_status := ''running''\<rparr>)"
        using find_job_set_job_same[OF j, of "\<lambda>j. j\<lparr>job_status := ''running''\<rparr>"] jid by simp
      from find_job_fail_job_same[OF this, of "gate_reason (merged_dataset env d)"]
        train_gates_fail[OF j Cons.prems(1)] t
      show "\<exists>j'. find (\<lambda>j. job_id j = job_id p) (jobs d') = Some j'
               \<and> job_status j' = ''failed''
               \<and> job_error_message j' \<in> {Some (gate_reason (merged_dataset env d)),
                                           Some NoActiveModel}"
        by auto
    qed
    from pj fr fo same show ?thesis by blast
  qed
  then obtain d' where d': "process_jobs env (p # pending) d = process_jobs env pending d'"
    and fr: "feedbacks d' = feedbacks d"
    and fo: "\<And>a. a \<noteq> job_id p \<Longrightarrow>
              find (\<lambda>j. job_id j = a) (jobs d') = find (\<lambda>j. job_id j = a) (jobs d)"
    and same: "find (\<lambda>j. job_id j = job_id p) (jobs d) \<noteq> None \<Longrightarrow>
            (\<exists>j'. find (\<lambda>j. job_id j = job_id p) (jobs d') = Some j'
               \<and> job_status j' = ''failed''
               \<and> job_error_message j' \<in> {Some (gate_reason (merged_dataset env d)),
                                           Some NoActiveModel})"
    by blast
  have g': "spec_gates_fail (merged_dataset env d')" using Cons.prems(1) md[OF fr] by simp
  show ?case
  proof (cases "job \<in> set pending")
    case True
    then have "job_id job \<in> job_id ` set pending" by (rule imageI)
    then have ne: "job_id job \<noteq> job_id p" using dist(2) by metis
    have "find (\<lambda>j. job_id j = job_id job) (jobs d') \<noteq> None"
      using fo[OF ne] Cons.prems(4) by simp
    from Cons.IH[OF g' dist(1) True this] md[OF fr] d' show ?thesis by simp
  next
    case False
    then have eq: "job = p" using Cons.prems(3) by simp
    have "find (\<lambda>j. job_id j = job_id p) (jobs (process_jobs env pending d'))
            = find (\<lambda>j. job_id j = job_id p) (jobs d')"
      using g' dist(2) by (rule process_jobs_find_other)
    with same Cons.prems(4) eq d' show ?thesis by simp
  qed
qed

lemma models_change_only_on_success:
  assumes "models (process_jobs env [job] d) \<noteq> models d"
  shows "\<exists>acc cv. snd (train_random_forest env (job_id job) d) = TrainSuccess acc cv"
proof (cases "find active (models d)")
  case None
  with assms show ?thesis by simp
next
  case (Some current_model)
  obtain d' res where t: "train_random_forest env (job_id job) d = (d', res)"
    by (cases "train_random_forest env (job_id job) d")
  have fr: "models d' = models d" using train_frame[of env "job_id job" d] t by simp
  show ?thesis
  proof (cases res)
    case (TrainSuccess acc cv)
    with t show ?thesis by simp
  next
    case (TrainFailure err)
    with assms Some t fr show ?thesis by simp
  qed
qed

lemma mem_nonempty: "x \<in> set xs \<Longrightarrow> xs \<noteq> []"
  by auto

lemma pending_distinct:
  assumes "distinct (map job_id js)"
  shows "distinct (map job_id (sort_key submitted_at (filter P js)))"
proof -
  have "distinct (map job_id (filter P js))" using assms by (rule distinct_map_filter)
  then show ?thesis by (simp add: distinct_map)
qed

lemmas eval_training = training_db_def example_job_def example_model_def example_env_def
  merged_dataset_def combine_data_def load_feedback_data_def with_source_def Let_def
  spec_gates_fail_def count_label_def gate_reason_def

lemma merged_60: "merged_dataset (example_env (replicate 60 ([97], 1))) training_db
   = replicate 60 \<lparr>ex_text = [97], ex_label = 1, ex_source = ''original''\<rparr>"
  by (simp add: eval_training)

lemma merged_200: "merged_dataset (example_env (replicate 3 ([97], 1) @ replicate 197 ([98], 0))) training_db
   = replicate 3 \<lparr>ex_text = [97], ex_label = 1, ex_source = ''original''\<rparr>
     @ replicate 197 \<lparr>ex_text = [98], ex_label = 0, ex_source = ''original''\<rparr>"
  by (simp add: eval_training)

lemma g60: "spec_gates_fail (merged_dataset (example_env (replicate 60 ([97], 1))) training_db)"
  unfolding merged_60 by (simp add: spec_gates_fail_def)

lemma g200: "spec_gates_fail (merged_dataset (example_env (replicate 3 ([97], 1) @ replicate 197 ([98], 0))) training_db)"
  unfolding merged_200 by (simp add: spec_gates_fail_def count_label_def)

lemma r60: "gate_reason (merged_dataset (example_env (replicate 60 ([97], 1))) training_db) = TotalDataShortage 60"
  unfolding merged_60 by (simp add: gate_reason_def)

lemma r200: "gate_reason (merged_dataset (example_env (replicate 3 ([97], 1) @ replicate 197 ([98], 0))) training_db) = LabelTooFew 3 197"
  unfolding merged_200 by (simp add: gate_reason_def count_label_def)

text \<open>A run that passes the gates registers version \<open>v1.1\<close> and deactivates \<open>v1.0\<close>.\<close>

lemma digit_char_1: "digit_char (Suc 0) = CHR ''1''"
  by code_simp

lemma success_publishes:
  "models (check_and_process_jobs
      (example_env (replicate 100 ([97], 1) @ replicate 100 ([98], 0))) training_db)
   = [example_model\<lparr>active := False\<rparr>,
      \<lparr>model_name = ''RandomForest-review-scorer'', version = ''v1.1'',
       artifact_url = ''rf_models_retrained/model_1'', accuracy = 9 / 10, active = True\<rparr>]"
  by (simp add: check_and_process_jobs_def train_random_forest_def create_new_model_version_def
        next_version_def parse_int_def digit_value_def set_job_def fail_job_def eval_training
        digit_char_1)

text \<open>
  C3. Let the merged data set fail a gate (fewer than 100 examples, or fewer than 5 of
  either class) and let the job exist. Then \<open>train_random_forest\<close> returns the failure
  and leaves the job \<open>failed\<close> with the reason: the data shortage with the size below
  100 examples (\<open>ValueError\<close> of \<open>combine_data\<close> when there is nothing at all to merge), the
  too small class otherwise. The size gate is tested first, so a small data set with a
  small class is reported as a data shortage. The model table is unchanged, by this
  job and by the whole run of \<open>check_and_process_jobs\<close>: no version is registered and
  the active one stays active. With distinct job ids, every pending training job ends
  \<open>failed\<close>, with the gate reason or, without an active model, with that message.
  Finally, for any environment, job and database, the model table changes only when
  training succeeded.
\<close>

theorem retraining_gates:
  assumes "spec_gates_fail (merged_dataset env d)"
    and "find (\<lambda>j. job_id j = jid) (jobs d) = Some job"
  shows "snd (train_random_forest env jid d) = TrainFailure (gate_reason (merged_dataset env d))
    \<and> (\<exists>job'. find (\<lambda>j. job_id j = jid) (jobs (fst (train_random_forest env jid d))) = Some job'
          \<and> job_status job' = ''failed''
          \<and> job_error_message job' = Some (gate_reason (merged_dataset env d)))
    \<and> gate_reason (merged_dataset env d) =
        (if merged_dataset env d = [] then Raised ValueError
         else if length (merged_dataset env d) < 100
           then TotalDataShortage (length (merged_dataset env d))
         else LabelTooFew (count_label 1 (merged_dataset env d))
                (count_label 0 (merged_dataset env d)))
    \<and> models (fst (train_random_forest env jid d)) = models d
    \<and> models (check_and_process_jobs env d) = models d
    \<and> (distinct (map job_id (jobs d)) \<longrightarrow>
         (\<forall>p \<in> set (jobs d). job_type p = ''training'' \<and> job_status p = ''pending'' \<longrightarrow>
            (\<exists>p'. find (\<lambda>j. job_id j = job_id p) (jobs (check_and_process_jobs env d)) = Some p'
               \<and> job_status p' = ''failed''
               \<and> job_error_message p' \<in> {Some (gate_reason (merged_dataset env d)),
                                           Some NoActiveModel})))
    \<and> (\<forall>e j d0. models (process_jobs e [j] d0) \<noteq> models d0 \<longrightarrow>
           (\<exists>acc cv. snd (train_random_forest e (job_id j) d0) = TrainSuccess acc cv))"
proof -
  let ?r = "gate_reason (merged_dataset env d)"
  let ?d1 = "set_job jid (\<lambda>j. j\<lparr>job_status := ''running''\<rparr>) d"
  note t = train_gates_fail[OF assms(2,1)]
  have c1: "snd (train_random_forest env jid d) = TrainFailure ?r" by (simp add: t)
  have jid: "job_id job = jid" using assms(2) by (auto dest: find_Some_iff[THEN iffD1])
  have "find (\<lambda>j. job_id j = jid) (jobs ?d1) = Some (job\<lparr>job_status := ''running''\<rparr>)"
    using find_job_set_job_same[OF assms(2), of "\<lambda>j. j\<lparr>job_status := ''running''\<rparr>"] jid by simp
  from find_job_fail_job_same[OF this, of ?r]
  have c2: "\<exists>job'. find (\<lambda>j. job_id j = jid) (jobs (fst (train_random_forest env jid d))) = Some job'
          \<and> job_status job' = ''failed'' \<and> job_error_message job' = Some ?r"
    by (simp add: t)
  have c3: "?r = (if merged_dataset env d = [] then Raised ValueError
         else if length (merged_dataset env d) < 100
           then TotalDataShortage (length (merged_dataset env d))
         else LabelTooFew (count_label 1 (merged_dataset env d))
                (count_label 0 (merged_dataset env d)))"
    by (simp add: gate_reason_def)
  have c4: "models (fst (train_random_forest env jid d)) = models d"
    using train_frame[of env jid d] by simp
  have c5: "models (check_and_process_jobs env d) = models d"
    using assms(1) by (rule check_and_process_jobs_models)
  have c6: "distinct (map job_id (jobs d)) \<longrightarrow>
         (\<forall>p \<in> set (jobs d). job_type p = ''training'' \<and> job_status p = ''pending'' \<longrightarrow>
            (\<exists>p'. find (\<lambda>j. job_id j = job_id p) (jobs (check_and_process_jobs env d)) = Some p'
               \<and> job_status p' = ''failed''
               \<and> job_error_message p' \<in> {Some ?r, Some NoActiveModel}))"
  proof (intro impI ballI)
    fix p
    assume dist: "distinct (map job_id (jobs d))" and p: "p \<in> set (jobs d)"
      and pend: "job_type p = ''training'' \<and> job_status p = ''pending''"
    let ?pending = "sort_key submitted_at
              (filter (\<lambda>j. job_type j = ''training'' \<and> job_status j = ''pending'') (jobs d))"
    have mem: "p \<in> set ?pending" using p pend by simp
    then have ne: "?pending \<noteq> []" by (rule mem_nonempty)
    have dp: "distinct (map job_id ?pending)" using dist by (rule pending_distinct)
    have found: "find (\<lambda>j. job_id j = job_id p) (jobs d) \<noteq> None"
      using p by (auto simp: find_None_iff)
    from process_jobs_failed[OF assms(1) dp mem found] ne
    show "\<exists>p'. find (\<lambda>j. job_id j = job_id p) (jobs (check_and_process_jobs env d)) = Some p'
               \<and> job_status p' = ''failed''
               \<and> job_error_message p' \<in> {Some ?r, Some NoActiveModel}"
      by (simp add: check_and_process_jobs_def Let_def)
  qed
  have c7: "\<forall>e j d0. models (process_jobs e [j] d0) \<noteq> models d0 \<longrightarrow>
           (\<exists>acc cv. snd (train_random_forest e (job_id j) d0) = TrainSuccess acc cv)"
    using models_change_only_on_success by blast
  from c1 c2 c3 c4 c5 c6 c7 show ?thesis by blast
qed

theorem retraining_gates_witness:
  "spec_gates_fail (merged_dataset (example_env (replicate 60 ([97], 1))) training_db)
   \<and> find (\<lambda>j. job_id j = 1) (jobs training_db) = Some example_job
   \<and> snd (train_random_forest (example_env (replicate 60 ([97], 1))) 1 training_db)
       = TrainFailure (TotalDataShortage 60)
   \<and> models (check_and_process_jobs (example_env (replicate 60 ([97], 1))) training_db)
       = [example_model]
   \<and> (\<exists>p'. find (\<lambda>j. job_id j = 1)
              (jobs (check_and_process_jobs (example_env (replicate 60 ([97], 1))) training_db))
            = Some p'
          \<and> job_status p' = ''failed''
          \<and> job_error_message p' = Some (TotalDataShortage 60))
   \<and> spec_gates_fail (merged_dataset
         (example_env (replicate 3 ([97], 1) @ replicate 197 ([98], 0))) training_db)
   \<and> snd (train_random_forest
         (example_env (replicate 3 ([97], 1) @ replicate 197 ([98], 0))) 1 training_db)
       = TrainFailure (LabelTooFew 3 197)
   \<and> models (check_and_process_jobs
         (example_env (replicate 3 ([97], 1) @ replicate 197 ([98], 0))) training_db)
       = [example_model]
   \<and> (\<exists>acc cv. snd (train_random_forest
           (example_env (replicate 100 ([97], 1) @ replicate 100 ([98], 0))) 1 training_db)
         = TrainSuccess acc cv)"
proof -
  let ?e60 = "example_env (replicate 60 ([97], 1))"
  let ?e200 = "example_env (replicate 3 ([97], 1) @ replicate 197 ([98], 0))"
  let ?ok = "example_env (replicate 100 ([97], 1) @ replicate 100 ([98], 0))"
  have f: "find (\<lambda>j. job_id j = 1) (jobs training_db) = Some example_job"
    by (simp add: training_db_def example_job_def)
  have m: "models training_db = [example_model]" by (simp add: training_db_def)
  have j: "distinct (map job_id (jobs training_db))" "example_job \<in> set (jobs training_db)"
    "job_type example_job = ''training'' \<and> job_status example_job = ''pending''"
    "job_id example_job = 1"
    by (simp_all add: training_db_def example_job_def)
  have na: "find active (models training_db) = Some example_model"
    by (simp add: training_db_def example_model_def)
  note g = retraining_gates[OF g60 f]
  from g r60 m
  have a: "snd (train_random_forest ?e60 1 training_db) = TrainFailure (TotalDataShortage 60)
     \<and> models (check_and_process_jobs ?e60 training_db) = [example_model]"
    by simp
  from g j obtain p' where p: "find (\<lambda>j. job_id j = 1)
              (jobs (check_and_process_jobs ?e60 training_db)) = Some p'"
     "job_status p' = ''failed''"
     "job_error_message p' \<in> {Some (gate_reason (merged_dataset ?e60 training_db)), Some NoActiveModel}"
    by metis
  have "job_error_message p' = Some (TotalDataShortage 60)"
  proof -
    have "jobs (check_and_process_jobs ?e60 training_db)
            = [example_job\<lparr>job_status := ''failed'',
                 job_error_message := Some (TotalDataShortage 60)\<rparr>]"
      by (simp add: check_and_process_jobs_def train_random_forest_def set_job_def
            fail_job_def eval_training)
    with p(1) show ?thesis by (auto simp: example_job_def split: if_splits)
  qed
  with p have c: "\<exists>p'. find (\<lambda>j. job_id j = 1)
              (jobs (check_and_process_jobs ?e60 training_db)) = Some p'
          \<and> job_status p' = ''failed''
          \<and> job_error_message p' = Some (TotalDataShortage 60)"
    by blast
  from retraining_gates[OF g200 f] r200 m
  have b: "snd (train_random_forest ?e200 1 training_db) = TrainFailure (LabelTooFew 3 197)
     \<and> models (check_and_process_jobs ?e200 training_db) = [example_model]"
    by simp
  have ch: "models (process_jobs ?ok [example_job] training_db) \<noteq> models training_db"
    using success_publishes
    by (simp add: check_and_process_jobs_def training_db_def example_job_def example_model_def)
  from g ch j(4) have s: "\<exists>acc cv. snd (train_random_forest ?ok 1 training_db) = TrainSuccess acc cv"
    by metis
  from a b c s f g60 g200 show ?thesis by simp
qed


section \<open>Properties of the labeling strategies\<close>

text \<open>
  C2. The hybrid strategy always returns a label. With the user satisfied
  (\<open>user_satisfaction = 1\<close>) the label is 1 for a score of at least 85, 0 for a score of
  at most 35, and in between 1 exactly when the score is above the batch average. With
  the user unsatisfied the label is 0 for a score of at most 35, 1 for a score of at
  least 85, and in between 0 exactly when the score is below the batch average. The
  three examples of the specification are the last three conjuncts.
\<close>

theorem smart_label_hybrid_spec:
  "smart_label_hybrid score avg sat =
     Some (if sat = 1
           then (if score \<ge> 85 then 1 else if score \<le> 35 then 0
                 else if score > avg then 1 else 0)
           else (if score \<le> 35 then 0 else if score \<ge> 85 then 1
                 else if score < avg then 0 else 1))
   \<and> smart_label_hybrid score avg sat \<noteq> None
   \<and> smart_label_hybrid 90 50 1 = Some 1
   \<and> smart_label_hybrid 20 avg 1 = Some 0
   \<and> smart_label_hybrid 60 65 1 = Some 0"
  by (simp add: smart_label_hybrid_def)

text \<open>
  C7. The extreme strategy returns 1 for a score of at least 80, 0 for a score of at
  most 40, and \<open>None\<close> exactly for the scores strictly between 40 and 80, whatever the
  satisfaction value; unsatisfied with score 50 gives \<open>None\<close>.
\<close>

theorem smart_label_extreme_spec:
  "smart_label_extreme score sat =
     (if score \<ge> 80 then Some 1 else if score \<le> 40 then Some 0 else None)
   \<and> (smart_label_extreme score sat = None \<longleftrightarrow> 40 < score \<and> score < 80)
   \<and> smart_label_extreme 50 0 = None"
  by (auto simp add: smart_label_extreme_def)

text \<open>
  C9. The label of the extreme strategy does not depend on the satisfaction value.
\<close>

theorem smart_label_extreme_ignores_satisfaction:
  "smart_label_extreme s a = smart_label_extreme s b"
  by (simp add: smart_label_extreme_def)

end
